theory Spec2Isabelle
  imports Complex_Main
begin

text \<open>
  A model of the touch router of \<^verbatim>\<open>src/components/game/controls-overlay.tsx\<close>: the
  component \<open>ControlsOverlay\<close>, its hit tests, its joystick arithmetic and its four
  touch handlers. Logging and rendering are left out.
\<close>

section \<open>Numbers\<close>

text \<open>
  The overlay computes with JavaScript numbers. They are modelled as real numbers: rounding
  is abstracted, and the special values (NaN, the infinities, the negative zero) are not
  represented. The only place where the source could produce them from finite inputs is the
  division by \<open>maxDistance\<close>, which is zero exactly when \<open>joystickSize = 40\<close>. The
  theorems below that give the numeric value or the range of an emitted update assume
  \<open>40 < joystickSize\<close>, a positive travel (the screen of the repository passes 140).
\<close>

text \<open>\<open>a % b\<close>: the remainder of the division truncated towards zero.\<close>

definition js_rem :: "real \<Rightarrow> real \<Rightarrow> real" where
  "js_rem a b = a - b * of_int (if 0 \<le> a / b then \<lfloor>a / b\<rfloor> else \<lceil>a / b\<rceil>)"

text \<open>\<open>Math.atan2(y, x)\<close> on finite arguments; the result lies in \<open>(-pi, pi]\<close>.\<close>

definition atan2 :: "real \<Rightarrow> real \<Rightarrow> real" where
  "atan2 y x =
     (if 0 < x then arctan (y / x)
      else if x < 0 then (if 0 \<le> y then arctan (y / x) + pi else arctan (y / x) - pi)
      else if 0 < y then pi / 2
      else if y < 0 then - (pi / 2)
      else 0)"

section \<open>Data\<close>

datatype ActionType = Attack | Dodge | Jump | Run

text \<open>
  \<open>JoystickData\<close>: the fields \<open>x\<close>, \<open>y\<close>, \<open>angle\<close>, \<open>distance\<close> of the source carry the
  prefix \<open>jd_\<close> here.
\<close>

record JoystickData =
  jd_x :: real
  jd_y :: real
  jd_angle :: real
  jd_distance :: real

text \<open>A touch of \<open>changedTouches\<close>: only the three fields the handlers read
  (\<open>identifier\<close> is written \<open>touch_identifier\<close>).\<close>

record touch =
  touch_identifier :: int
  pageX :: real
  pageY :: real

text \<open>
  The callbacks \<open>onJoystickMove\<close>, \<open>onJoystickRelease\<close>, \<open>onButtonPress\<close> and
  \<open>onButtonRelease\<close> are modelled by the list of the calls made, in order.
\<close>

datatype event =
    JoystickMove JoystickData
  | JoystickRelease
  | ButtonPress ActionType
  | ButtonRelease ActionType

text \<open>
  The state of the component: the three \<open>useState\<close> cells of the joystick and of the
  overlay size (pairs \<open>(width, height)\<close> and \<open>(x, y)\<close>), the set of pressed buttons, and
  the two refs \<open>joystickTouchId\<close> (\<open>None\<close> for \<open>null\<close>) and \<open>buttonTouches\<close>.
\<close>

record state =
  overlaySize :: "real \<times> real"
  joyPos :: "real \<times> real"
  joyActive :: bool
  joystickTouchId :: "int option"
  pressedButtons :: "ActionType set"
  buttonTouches :: "int \<rightharpoonup> ActionType"

definition initialState :: "real \<Rightarrow> real \<Rightarrow> state" where
  "initialState w h =
     \<lparr>overlaySize = (w, h), joyPos = (0, 0), joyActive = False,
      joystickTouchId = None, pressedButtons = {}, buttonTouches = Map.empty\<rparr>"

section \<open>Layout\<close>

definition maxDistance :: "real \<Rightarrow> real" where
  "maxDistance joystickSize = joystickSize / 2 - 20"

definition joystickLeft :: real where
  "joystickLeft = 30"

definition joystickBottom :: real where
  "joystickBottom = 40"

definition joystickCenter :: "real \<Rightarrow> state \<Rightarrow> real \<times> real" where
  "joystickCenter joystickSize s =
     (joystickLeft + joystickSize / 2,
      snd (overlaySize s) - (joystickBottom + joystickSize / 2))"

definition buttonRadius :: real where
  "buttonRadius = 30"

text \<open>An entry of \<open>buttons\<close>; label and colour are presentation only.\<close>

record button =
  b_type :: ActionType
  b_right :: real
  b_bottom :: real

definition buttons :: "button list" where
  "buttons =
     [\<lparr>b_type = Attack, b_right = 20, b_bottom = 80\<rparr>,
      \<lparr>b_type = Dodge, b_right = 100, b_bottom = 20\<rparr>,
      \<lparr>b_type = Jump, b_right = 100, b_bottom = 140\<rparr>,
      \<lparr>b_type = Run, b_right = 180, b_bottom = 80\<rparr>]"

definition getButtonCenter :: "state \<Rightarrow> button \<Rightarrow> real \<times> real" where
  "getButtonCenter s b =
     (fst (overlaySize s) - (b_right b + buttonRadius),
      snd (overlaySize s) - (b_bottom b + buttonRadius))"

section \<open>Hit tests\<close>

definition hitTestJoystick :: "real \<Rightarrow> state \<Rightarrow> real \<Rightarrow> real \<Rightarrow> bool" where
  "hitTestJoystick joystickSize s x y =
     (let dx = x - fst (joystickCenter joystickSize s);
          dy = y - snd (joystickCenter joystickSize s);
          dist = sqrt (dx * dx + dy * dy)
      in dist \<le> joystickSize / 2)"

text \<open>The loop of \<open>hitTestButtons\<close> over the rest of the button list.\<close>

fun hitTestButtonsFrom :: "state \<Rightarrow> real \<Rightarrow> real \<Rightarrow> button list \<Rightarrow> ActionType option" where
  "hitTestButtonsFrom s x y [] = None"
| "hitTestButtonsFrom s x y (b # bs) =
     (let c = getButtonCenter s b;
          dx = x - fst c;
          dy = y - snd c;
          dist = sqrt (dx * dx + dy * dy)
      in if dist \<le> buttonRadius then Some (b_type b) else hitTestButtonsFrom s x y bs)"

definition hitTestButtons :: "state \<Rightarrow> real \<Rightarrow> real \<Rightarrow> ActionType option" where
  "hitTestButtons s x y = hitTestButtonsFrom s x y buttons"

section \<open>Joystick\<close>

definition moveJoystickWithTouch :: "real \<Rightarrow> state \<Rightarrow> real \<Rightarrow> real \<Rightarrow> state \<times> event list" where
  "moveJoystickWithTouch joystickSize s x y =
     (let dx = x - fst (joystickCenter joystickSize s);
          dy = y - snd (joystickCenter joystickSize s);
          distance = sqrt (dx * dx + dy * dy);
          (finalX, finalY) =
            (if distance > maxDistance joystickSize
             then (cos (atan2 dy dx) * maxDistance joystickSize,
                   sin (atan2 dy dx) * maxDistance joystickSize)
             else (dx, dy));
          normalizedDistance = min (distance / maxDistance joystickSize) 1;
          angle = js_rem (atan2 dy dx * 180 / pi + 360) 360;
          normalizedX = max (- 1) (min 1 (dx / maxDistance joystickSize));
          normalizedY = max (- 1) (min 1 (dy / maxDistance joystickSize))
      in (s\<lparr>joyPos := (finalX, finalY)\<rparr>,
          [JoystickMove \<lparr>jd_x = normalizedX, jd_y = normalizedY, jd_angle = angle,
                         jd_distance = normalizedDistance\<rparr>]))"

definition startJoystickWithTouch ::
  "real \<Rightarrow> state \<Rightarrow> int \<Rightarrow> real \<Rightarrow> real \<Rightarrow> state \<times> event list" where
  "startJoystickWithTouch joystickSize s tid x y =
     moveJoystickWithTouch joystickSize (s\<lparr>joystickTouchId := Some tid, joyActive := True\<rparr>) x y"

text \<open>
  \<open>releaseJoystick\<close> reads \<open>joyActive\<close> from the closure of the render in which the
  handler was created: the first argument is that value, which calls of \<open>setJoyActive\<close>
  during the same handler do not change.
\<close>

definition releaseJoystick :: "bool \<Rightarrow> state \<Rightarrow> state \<times> event list" where
  "releaseJoystick active s =
     (if \<not> active then (s, [])
      else (s\<lparr>joystickTouchId := None, joyActive := False, joyPos := (0, 0)\<rparr>,
            [JoystickRelease]))"

section \<open>Touch handlers\<close>

text \<open>
  A \<open>for (const t of changed)\<close> loop: the body is run on each touch in order, the state is
  threaded through and the calls made are appended.
\<close>

fun forOf :: "(state \<Rightarrow> touch \<Rightarrow> state \<times> event list) \<Rightarrow> state \<Rightarrow> touch list \<Rightarrow> state \<times> event list" where
  "forOf body s [] = (s, [])"
| "forOf body s (t # ts) =
     (let (s1, e1) = body s t;
          (s2, e2) = forOf body s1 ts
      in (s2, e1 @ e2))"

text \<open>The body of the loop of \<open>handleTouchStart\<close>.\<close>

definition touchStartStep :: "real \<Rightarrow> state \<Rightarrow> touch \<Rightarrow> state \<times> event list" where
  "touchStartStep joystickSize s t =
     (let tid = touch_identifier t; x = pageX t; y = pageY t
      in if joystickTouchId s = None \<and> hitTestJoystick joystickSize s x y
         then startJoystickWithTouch joystickSize s tid x y
         else (case hitTestButtons s x y of
                 None \<Rightarrow> (s, [])
               | Some btn \<Rightarrow>
                   (s\<lparr>buttonTouches := (buttonTouches s)(tid \<mapsto> btn),
                      pressedButtons := insert btn (pressedButtons s)\<rparr>,
                    [ButtonPress btn])))"

definition handleTouchStart :: "real \<Rightarrow> state \<Rightarrow> touch list \<Rightarrow> state \<times> event list" where
  "handleTouchStart joystickSize s changed = forOf (touchStartStep joystickSize) s changed"

text \<open>The body of the loop of \<open>handleTouchMove\<close>.\<close>

definition touchMoveStep :: "real \<Rightarrow> state \<Rightarrow> touch \<Rightarrow> state \<times> event list" where
  "touchMoveStep joystickSize s t =
     (if Some (touch_identifier t) = joystickTouchId s
      then moveJoystickWithTouch joystickSize s (pageX t) (pageY t)
      else (s, []))"

definition handleTouchMove :: "real \<Rightarrow> state \<Rightarrow> touch list \<Rightarrow> state \<times> event list" where
  "handleTouchMove joystickSize s moved = forOf (touchMoveStep joystickSize) s moved"

text \<open>The body of the loop of \<open>handleTouchEnd\<close>; \<open>active\<close> is the captured \<open>joyActive\<close>.\<close>

definition touchEndStep :: "bool \<Rightarrow> state \<Rightarrow> touch \<Rightarrow> state \<times> event list" where
  "touchEndStep active s t =
     (let tid = touch_identifier t;
          (s1, e1) = (if Some tid = joystickTouchId s then releaseJoystick active s else (s, []))
      in case buttonTouches s1 tid of
           None \<Rightarrow> (s1, e1)
         | Some btn \<Rightarrow>
             (s1\<lparr>buttonTouches := (buttonTouches s1)(tid := None),
                 pressedButtons := pressedButtons s1 - {btn}\<rparr>,
              e1 @ [ButtonRelease btn]))"

definition handleTouchEnd :: "state \<Rightarrow> touch list \<Rightarrow> state \<times> event list" where
  "handleTouchEnd s ended = forOf (touchEndStep (joyActive s)) s ended"

text \<open>The \<open>onLayout\<close> prop: \<open>width && height\<close> holds when neither is zero.\<close>

definition onLayout :: "state \<Rightarrow> real \<Rightarrow> real \<Rightarrow> state" where
  "onLayout s width height =
     (if width \<noteq> 0 \<and> height \<noteq> 0 then s\<lparr>overlaySize := (width, height)\<rparr> else s)"

text \<open>
  The events the host delivers to the overlay, one handler invocation each. The state
  updates of a handler are committed before the next one runs, so that each handler closes
  over the state its predecessor left. \<open>onTouchCancel\<close> is the same function as
  \<open>onTouchEnd\<close>.
\<close>

datatype batch =
    TouchStart "touch list"
  | TouchMove "touch list"
  | TouchEnd "touch list"
  | TouchCancel "touch list"
  | Layout real real

fun dispatch :: "real \<Rightarrow> state \<Rightarrow> batch \<Rightarrow> state \<times> event list" where
  "dispatch joystickSize s (TouchStart ts) = handleTouchStart joystickSize s ts"
| "dispatch joystickSize s (TouchMove ts) = handleTouchMove joystickSize s ts"
| "dispatch joystickSize s (TouchEnd ts) = handleTouchEnd s ts"
| "dispatch joystickSize s (TouchCancel ts) = handleTouchEnd s ts"
| "dispatch joystickSize s (Layout w h) = (onLayout s w h, [])"

section \<open>Bindings and event streams\<close>

text \<open>
  The controls a touch can drive. A touch is bound to the joystick when it is the value of
  \<open>joystickTouchId\<close>, and to a button when \<open>buttonTouches\<close> maps it to that button.
\<close>

datatype control = Joystick | Button ActionType

fun bound_to :: "state \<Rightarrow> int \<Rightarrow> control \<Rightarrow> bool" where
  "bound_to s i Joystick = (joystickTouchId s = Some i)"
| "bound_to s i (Button b) = (buttonTouches s i = Some b)"

definition unbound :: "state \<Rightarrow> int \<Rightarrow> bool" where
  "unbound s i = (joystickTouchId s \<noteq> Some i \<and> buttonTouches s i = None)"

text \<open>Whether a batch carries a begin, or an end or cancel, of touch \<open>i\<close>.\<close>

fun begins :: "batch \<Rightarrow> int \<Rightarrow> bool" where
  "begins (TouchStart ts) i = (i \<in> touch_identifier ` set ts)"
| "begins b i = False"

fun ends :: "batch \<Rightarrow> int \<Rightarrow> bool" where
  "ends (TouchEnd ts) i = (i \<in> touch_identifier ` set ts)"
| "ends (TouchCancel ts) i = (i \<in> touch_identifier ` set ts)"
| "ends b i = False"

text \<open>The state after a sequence of batches.\<close>

fun run :: "real \<Rightarrow> state \<Rightarrow> batch list \<Rightarrow> state" where
  "run joystickSize s [] = s"
| "run joystickSize s (b # bs) = run joystickSize (fst (dispatch joystickSize s b)) bs"

text \<open>
  The host gives a touch an identifier that no other touch in progress has: the touches of
  a begin batch have pairwise distinct identifiers, none of which is bound at that moment.
\<close>

fun well_formed :: "state \<Rightarrow> batch \<Rightarrow> bool" where
  "well_formed s (TouchStart ts) =
     (distinct (map touch_identifier ts) \<and> (\<forall>t \<in> set ts. unbound s (touch_identifier t)))"
| "well_formed s b = True"

inductive reachable :: "real \<Rightarrow> state \<Rightarrow> bool" for joystickSize :: real where
  reachable_init: "reachable joystickSize (initialState w h)"
| reachable_step:
    "reachable joystickSize s \<Longrightarrow> well_formed s b \<Longrightarrow>
     reachable joystickSize (fst (dispatch joystickSize s b))"

section \<open>The joystick update as the specification words it\<close>

definition clamp :: "real \<Rightarrow> real \<Rightarrow> real \<Rightarrow> real" where
  "clamp v lo hi = (if v < lo then lo else if hi < v then hi else v)"

text \<open>The mathematical remainder, with the sign of the divisor.\<close>

definition spec_mod :: "real \<Rightarrow> real \<Rightarrow> real" where
  "spec_mod a m = a - m * of_int \<lfloor>a / m\<rfloor>"

definition in_degrees :: "real \<Rightarrow> real" where
  "in_degrees r = r * 180 / pi"

definition offset_length :: "real \<Rightarrow> real \<Rightarrow> real" where
  "offset_length dx dy = sqrt (dx\<^sup>2 + dy\<^sup>2)"

definition spec_joystick_update :: "real \<Rightarrow> real \<Rightarrow> real \<Rightarrow> JoystickData" where
  "spec_joystick_update dx dy maxTravel =
     \<lparr>jd_x = clamp (dx / maxTravel) (- 1) 1,
      jd_y = clamp (dy / maxTravel) (- 1) 1,
      jd_angle = spec_mod (in_degrees (atan2 dy dx) + 360) 360,
      jd_distance = min (offset_length dx dy / maxTravel) 1\<rparr>"

text \<open>The offset of a touch from the joystick centre.\<close>

definition joystickOffset :: "real \<Rightarrow> state \<Rightarrow> touch \<Rightarrow> real \<times> real" where
  "joystickOffset joystickSize s t =
     (pageX t - fst (joystickCenter joystickSize s),
      pageY t - snd (joystickCenter joystickSize s))"

text \<open>A position lies in the hit circle of a centre and a radius, boundary included.\<close>

definition in_circle :: "real \<times> real \<Rightarrow> real \<Rightarrow> real \<Rightarrow> real \<Rightarrow> bool" where
  "in_circle c r x y = (offset_length (x - fst c) (y - snd c) \<le> r)"

section \<open>A concrete screen\<close>

text \<open>
  An overlay of 800 by 400 with the joystick size 140 of the game screen: the joystick centre
  is \<open>(100, 290)\<close>, its radius 70 and its travel 50; the button centres are
  \<open>(750, 290)\<close> (attack), \<open>(670, 350)\<close> (dodge), \<open>(670, 230)\<close> (jump) and
  \<open>(590, 290)\<close> (run).
\<close>

definition exampleScreen :: state where
  "exampleScreen = initialState 800 400"

definition touchAt :: "int \<Rightarrow> real \<Rightarrow> real \<Rightarrow> touch" where
  "touchAt i x y = \<lparr>touch_identifier = i, pageX = x, pageY = y\<rparr>"

section \<open>Loops and arithmetic\<close>

lemma forOf_append:
  "forOf body s (xs @ ys) =
     (let (s1, e1) = forOf body s xs; (s2, e2) = forOf body s1 ys in (s2, e1 @ e2))"
  by (induction xs arbitrary: s) (simp_all add: split_beta Let_def)

lemma forOf_preserves:
  assumes "\<And>s t. t \<in> set ts \<Longrightarrow> P s \<Longrightarrow> P (fst (body s t))" and "P s"
  shows "P (fst (forOf body s ts))"
  using assms by (induction ts arbitrary: s) (simp_all add: split_beta Let_def)

lemma forOf_noop:
  assumes "\<And>t. t \<in> set ts \<Longrightarrow> body s t = (s, [])"
  shows "forOf body s ts = (s, [])"
  using assms by (induction ts) (simp_all add: split_beta Let_def)

lemma sqrt_sum_le_iff:
  "0 \<le> r \<Longrightarrow> sqrt (a * a + b * b) \<le> r \<longleftrightarrow> a * a + b * b \<le> r * r"
  using real_sqrt_le_iff [of "a * a + b * b" "r * r"] by simp

lemma atan2_bounds: "- pi < atan2 y x \<and> atan2 y x \<le> pi"
proof -
  have a: "- (pi / 2) < arctan (y / x)" "arctan (y / x) < pi / 2"
    by (rule arctan_lbound, rule arctan_ubound)
  have neg: "x < 0 \<Longrightarrow> 0 \<le> y \<Longrightarrow> arctan (y / x) \<le> 0"
    by (simp add: divide_nonneg_neg arctan_le_zero_iff)
  have pos: "x < 0 \<Longrightarrow> y < 0 \<Longrightarrow> 0 < arctan (y / x)"
    by (simp add: divide_neg_neg arctan_less_zero_iff zero_less_arctan_iff)
  show ?thesis
    using a neg pos pi_gt_zero by (auto simp: atan2_def)
qed

lemma js_rem_nonneg:
  assumes "0 \<le> a" "0 < b"
  shows "js_rem a b = spec_mod a b"
  using assms by (simp add: js_rem_def spec_mod_def)

lemma spec_mod_range:
  assumes "0 < b"
  shows "0 \<le> spec_mod a b \<and> spec_mod a b < b"
proof -
  have 1: "of_int \<lfloor>a / b\<rfloor> \<le> a / b" by (rule of_int_floor_le)
  have 2: "a / b < of_int \<lfloor>a / b\<rfloor> + 1" by linarith
  have "b * of_int \<lfloor>a / b\<rfloor> \<le> b * (a / b)"
    using 1 assms by (intro mult_left_mono) simp_all
  then have lo: "b * of_int \<lfloor>a / b\<rfloor> \<le> a"
    using assms by simp
  have "b * (a / b) < b * (of_int \<lfloor>a / b\<rfloor> + 1)"
    using 2 assms by (intro mult_strict_left_mono) simp_all
  then have hi: "a < b * (of_int \<lfloor>a / b\<rfloor> + 1)"
    using assms by simp
  from lo hi show ?thesis
    by (simp add: spec_mod_def algebra_simps)
qed

section \<open>Hit tests without the square root\<close>

lemma hitTestJoystick_squares:
  assumes "0 \<le> js"
  shows "hitTestJoystick js s x y \<longleftrightarrow>
     (x - (30 + js / 2)) * (x - (30 + js / 2)) +
     (y - (snd (overlaySize s) - (40 + js / 2))) * (y - (snd (overlaySize s) - (40 + js / 2)))
       \<le> (js / 2) * (js / 2)"
proof -
  have "0 \<le> js / 2" using assms by simp
  from sqrt_sum_le_iff [OF this] show ?thesis
    unfolding hitTestJoystick_def Let_def joystickCenter_def joystickLeft_def
      joystickBottom_def fst_conv snd_conv .
qed

lemma hitTestButtonsFrom_squares:
  "hitTestButtonsFrom s x y (b # bs) =
     (if (x - (fst (overlaySize s) - (b_right b + 30))) * (x - (fst (overlaySize s) - (b_right b + 30))) +
         (y - (snd (overlaySize s) - (b_bottom b + 30))) * (y - (snd (overlaySize s) - (b_bottom b + 30)))
           \<le> 900
      then Some (b_type b) else hitTestButtonsFrom s x y bs)"
  using sqrt_sum_le_iff [of 30 "x - (fst (overlaySize s) - (b_right b + 30))"
      "y - (snd (overlaySize s) - (b_bottom b + 30))"]
  by (simp add: Let_def getButtonCenter_def buttonRadius_def)

section \<open>What one step does to the bindings\<close>

lemma moveJoystickWithTouch_shape:
  "\<exists>p d. moveJoystickWithTouch js s x y = (s\<lparr>joyPos := p\<rparr>, [JoystickMove d])"
proof -
  let ?r = "moveJoystickWithTouch js s x y"
  have "fst ?r = s\<lparr>joyPos := joyPos (fst ?r)\<rparr>"
    by (simp add: moveJoystickWithTouch_def Let_def split_beta)
  moreover have "\<exists>d. snd ?r = [JoystickMove d]"
    by (simp add: moveJoystickWithTouch_def Let_def split_beta)
  ultimately show ?thesis
    by (metis prod.collapse)
qed

lemma touchStartStep_cases:
  obtains
    (joystick) p d where
      "joystickTouchId s = None" "hitTestJoystick js s (pageX t) (pageY t)"
      "touchStartStep js s t =
         (s\<lparr>joystickTouchId := Some (touch_identifier t), joyActive := True, joyPos := p\<rparr>,
          [JoystickMove d])"
  | (button) b where
      "\<not> (joystickTouchId s = None \<and> hitTestJoystick js s (pageX t) (pageY t))"
      "hitTestButtons s (pageX t) (pageY t) = Some b"
      "touchStartStep js s t =
         (s\<lparr>buttonTouches := (buttonTouches s)(touch_identifier t \<mapsto> b),
            pressedButtons := insert b (pressedButtons s)\<rparr>,
          [ButtonPress b])"
  | (nothing)
      "\<not> (joystickTouchId s = None \<and> hitTestJoystick js s (pageX t) (pageY t))"
      "hitTestButtons s (pageX t) (pageY t) = None"
      "touchStartStep js s t = (s, [])"
proof (cases "joystickTouchId s = None \<and> hitTestJoystick js s (pageX t) (pageY t)")
  case True
  obtain p d where
    "moveJoystickWithTouch js (s\<lparr>joystickTouchId := Some (touch_identifier t), joyActive := True\<rparr>)
       (pageX t) (pageY t) =
     (s\<lparr>joystickTouchId := Some (touch_identifier t), joyActive := True, joyPos := p\<rparr>,
      [JoystickMove d])"
    using moveJoystickWithTouch_shape by blast
  with True show ?thesis
    by - (rule joystick [of p d], auto simp: touchStartStep_def startJoystickWithTouch_def Let_def)
next
  case False
  show ?thesis
  proof (cases "hitTestButtons s (pageX t) (pageY t)")
    case None
    with False show ?thesis
      by - (rule nothing, auto simp: touchStartStep_def Let_def)
  next
    case (Some b)
    with False show ?thesis
      by - (rule button [of b], auto simp: touchStartStep_def Let_def)
  qed
qed

lemma touchMoveStep_shape:
  "\<exists>p. fst (touchMoveStep js s t) = s\<lparr>joyPos := p\<rparr>"
proof (cases "Some (touch_identifier t) = joystickTouchId s")
  case True
  then show ?thesis
    using moveJoystickWithTouch_shape [of js s "pageX t" "pageY t"]
    by (metis fst_conv touchMoveStep_def)
next
  case False
  then have "fst (touchMoveStep js s t) = s\<lparr>joyPos := joyPos s\<rparr>"
    by (simp add: touchMoveStep_def)
  then show ?thesis by blast
qed

lemma touchStartStep_bound_to:
  assumes "touch_identifier t \<noteq> i"
  shows "bound_to (fst (touchStartStep js s t)) i c = bound_to s i c"
  using assms by (cases rule: touchStartStep_cases [of s js t]; cases c) auto

lemma touchMoveStep_bound_to:
  "bound_to (fst (touchMoveStep js s t)) i c = bound_to s i c"
  using touchMoveStep_shape [of js s t] by (cases c) auto

lemma touchEndStep_bound_to_other:
  assumes "touch_identifier t \<noteq> i"
  shows "bound_to (fst (touchEndStep a s t)) i c = bound_to s i c"
  using assms
  by (cases c) (auto simp: touchEndStep_def releaseJoystick_def Let_def split: option.splits)

lemma touchEndStep_bound_to_back:
  assumes "bound_to (fst (touchEndStep a s t)) i c"
  shows "bound_to s i c"
  using assms
  by (cases c) (auto simp: touchEndStep_def releaseJoystick_def Let_def split: option.splits if_splits)

lemma unbound_iff: "unbound s i \<longleftrightarrow> (\<forall>c. \<not> bound_to s i c)"
proof
  assume "unbound s i"
  then show "\<forall>c. \<not> bound_to s i c"
    by (auto simp: unbound_def elim: bound_to.elims)
next
  assume a: "\<forall>c. \<not> bound_to s i c"
  from a have "\<not> bound_to s i Joystick" by blast
  moreover from a have "\<forall>b. \<not> bound_to s i (Button b)" by blast
  ultimately show "unbound s i"
    by (cases "buttonTouches s i") (auto simp: unbound_def)
qed

lemma forOf_bound_to:
  assumes "\<And>s t. t \<in> set ts \<Longrightarrow> bound_to (fst (body s t)) i c = bound_to s i c"
  shows "bound_to (fst (forOf body s ts)) i c = bound_to s i c"
  using assms by (induction ts arbitrary: s) (simp_all add: split_beta Let_def)

lemma forOf_bound_to_back:
  assumes "\<And>s t. t \<in> set ts \<Longrightarrow> bound_to (fst (body s t)) i c \<Longrightarrow> bound_to s i c"
    and "bound_to (fst (forOf body s ts)) i c"
  shows "bound_to s i c"
  using assms by (induction ts arbitrary: s) (simp_all add: split_beta Let_def, blast)

lemma dispatch_bound_to_same:
  assumes "\<not> begins b i" "\<not> ends b i"
  shows "bound_to (fst (dispatch js s b)) i c = bound_to s i c"
proof (cases b)
  case (TouchStart ts)
  with assms(1) have "\<And>t. t \<in> set ts \<Longrightarrow> touch_identifier t \<noteq> i" by auto
  then show ?thesis
    unfolding TouchStart dispatch.simps handleTouchStart_def
    by (intro forOf_bound_to touchStartStep_bound_to)
next
  case (TouchMove ts)
  show ?thesis
    unfolding TouchMove dispatch.simps handleTouchMove_def
    by (intro forOf_bound_to touchMoveStep_bound_to)
next
  case (TouchEnd ts)
  with assms(2) have "\<And>t. t \<in> set ts \<Longrightarrow> touch_identifier t \<noteq> i" by auto
  then show ?thesis
    unfolding TouchEnd dispatch.simps handleTouchEnd_def
    by (intro forOf_bound_to touchEndStep_bound_to_other)
next
  case (TouchCancel ts)
  with assms(2) have "\<And>t. t \<in> set ts \<Longrightarrow> touch_identifier t \<noteq> i" by auto
  then show ?thesis
    unfolding TouchCancel dispatch.simps handleTouchEnd_def
    by (intro forOf_bound_to touchEndStep_bound_to_other)
next
  case (Layout w h)
  show ?thesis
    unfolding Layout by (cases c) (simp_all add: onLayout_def)
qed

lemma dispatch_bound_to_back:
  assumes "\<not> begins b i" "bound_to (fst (dispatch js s b)) i c"
  shows "bound_to s i c"
proof (cases "ends b i")
  case False
  with assms show ?thesis by (simp add: dispatch_bound_to_same)
next
  case True
  then consider ts where "b = TouchEnd ts" | ts where "b = TouchCancel ts"
    by (cases b) auto
  then have "\<exists>ts. fst (dispatch js s b) = fst (forOf (touchEndStep (joyActive s)) s ts)"
    by cases (auto simp: handleTouchEnd_def)
  with assms(2) show ?thesis
    by (auto intro: forOf_bound_to_back touchEndStep_bound_to_back)
qed

lemma run_bound_to_back:
  assumes "\<forall>b \<in> set bs. \<not> begins b i" "bound_to (run js s bs) i c"
  shows "bound_to s i c"
  using assms
proof (induction bs arbitrary: s)
  case Nil
  then show ?case by simp
next
  case (Cons b bs)
  then have "bound_to (fst (dispatch js s b)) i c" by simp
  with Cons.prems(1) show ?case
    by (intro dispatch_bound_to_back [of b i js s c]) simp_all
qed

lemma run_bound_to_same:
  assumes "\<forall>b \<in> set bs. \<not> begins b i \<and> \<not> ends b i"
  shows "bound_to (run js s bs) i c = bound_to s i c"
  using assms
  by (induction bs arbitrary: s) (simp_all add: dispatch_bound_to_same)

section \<open>Invariants\<close>

lemma touchStartStep_keeps_joystick:
  assumes "joystickTouchId s = Some a"
  shows "joystickTouchId (fst (touchStartStep js s t)) = Some a"
  using assms by (cases rule: touchStartStep_cases [of s js t]) auto

lemma handleTouchStart_keeps_joystick:
  assumes "joystickTouchId s = Some a"
  shows "joystickTouchId (fst (handleTouchStart js s ts)) = Some a"
  unfolding handleTouchStart_def
  using assms
  by (rule forOf_preserves [where P = "\<lambda>s. joystickTouchId s = Some a", rotated])
    (rule touchStartStep_keeps_joystick)

subsection \<open>\<open>joyActive\<close> holds exactly while the joystick has a touch\<close>

lemma touchStartStep_active:
  assumes "joyActive s = (joystickTouchId s \<noteq> None)"
  shows "joyActive (fst (touchStartStep js s t)) = (joystickTouchId (fst (touchStartStep js s t)) \<noteq> None)"
  using assms by (cases rule: touchStartStep_cases [of s js t]) auto

lemma touchMoveStep_active:
  assumes "joyActive s = (joystickTouchId s \<noteq> None)"
  shows "joyActive (fst (touchMoveStep js s t)) = (joystickTouchId (fst (touchMoveStep js s t)) \<noteq> None)"
  using assms touchMoveStep_shape [of js s t] by auto

lemma touchEndStep_active:
  assumes "joyActive s = (joystickTouchId s \<noteq> None) \<and> (joystickTouchId s \<noteq> None \<longrightarrow> a)"
  shows "joyActive (fst (touchEndStep a s t)) = (joystickTouchId (fst (touchEndStep a s t)) \<noteq> None)
     \<and> (joystickTouchId (fst (touchEndStep a s t)) \<noteq> None \<longrightarrow> a)"
  using assms
  by (auto simp: touchEndStep_def releaseJoystick_def Let_def split: option.splits)

lemma forOf_touchEndStep_active:
  assumes "joyActive s = (joystickTouchId s \<noteq> None) \<and> (joystickTouchId s \<noteq> None \<longrightarrow> a)"
  shows "joyActive (fst (forOf (touchEndStep a) s ts)) =
           (joystickTouchId (fst (forOf (touchEndStep a) s ts)) \<noteq> None)"
  using assms
proof (induction ts arbitrary: s)
  case Nil
  then show ?case by simp
next
  case (Cons t ts)
  from touchEndStep_active [OF Cons.prems, of t]
  have "joyActive (fst (forOf (touchEndStep a) (fst (touchEndStep a s t)) ts)) =
          (joystickTouchId (fst (forOf (touchEndStep a) (fst (touchEndStep a s t)) ts)) \<noteq> None)"
    by (rule Cons.IH)
  then show ?case
    by (simp add: split_beta Let_def)
qed

lemma handleTouchEnd_active:
  assumes "joyActive s = (joystickTouchId s \<noteq> None)"
  shows "joyActive (fst (handleTouchEnd s ts)) = (joystickTouchId (fst (handleTouchEnd s ts)) \<noteq> None)"
  unfolding handleTouchEnd_def
  using assms by (intro forOf_touchEndStep_active) blast

lemma dispatch_active:
  assumes "joyActive s = (joystickTouchId s \<noteq> None)"
  shows "joyActive (fst (dispatch js s b)) = (joystickTouchId (fst (dispatch js s b)) \<noteq> None)"
proof (cases b)
  case (TouchStart ts)
  show ?thesis
    unfolding TouchStart dispatch.simps handleTouchStart_def
    by (rule forOf_preserves [where P = "\<lambda>s. joyActive s = (joystickTouchId s \<noteq> None)"])
      (use assms in \<open>simp_all add: touchStartStep_active\<close>)
next
  case (TouchMove ts)
  show ?thesis
    unfolding TouchMove dispatch.simps handleTouchMove_def
    by (rule forOf_preserves [where P = "\<lambda>s. joyActive s = (joystickTouchId s \<noteq> None)"])
      (use assms in \<open>simp_all add: touchMoveStep_active\<close>)
next
  case (TouchEnd ts)
  show ?thesis
    unfolding TouchEnd dispatch.simps using assms by (rule handleTouchEnd_active)
next
  case (TouchCancel ts)
  show ?thesis
    unfolding TouchCancel dispatch.simps using assms by (rule handleTouchEnd_active)
next
  case (Layout w h)
  with assms show ?thesis by (simp add: onLayout_def)
qed

lemma reachable_active:
  assumes "reachable js s"
  shows "joyActive s = (joystickTouchId s \<noteq> None)"
  using assms
  by induction (simp_all add: initialState_def dispatch_active)

subsection \<open>The joystick touch is in no button binding\<close>

lemma touchStartStep_unbound_other:
  assumes "unbound s i" "touch_identifier t \<noteq> i"
  shows "unbound (fst (touchStartStep js s t)) i"
  using assms by (simp add: unbound_iff touchStartStep_bound_to)

lemma touchStartStep_exclusive:
  assumes "\<forall>i. joystickTouchId s = Some i \<longrightarrow> buttonTouches s i = None"
    and "unbound s (touch_identifier t)"
  shows "\<forall>i. joystickTouchId (fst (touchStartStep js s t)) = Some i \<longrightarrow>
     buttonTouches (fst (touchStartStep js s t)) i = None"
  using assms by (cases rule: touchStartStep_cases [of s js t]) (auto simp: unbound_def)

lemma handleTouchStart_exclusive:
  assumes "\<forall>i. joystickTouchId s = Some i \<longrightarrow> buttonTouches s i = None"
    and "distinct (map touch_identifier ts)"
    and "\<forall>t \<in> set ts. unbound s (touch_identifier t)"
  shows "\<forall>i. joystickTouchId (fst (handleTouchStart js s ts)) = Some i \<longrightarrow>
     buttonTouches (fst (handleTouchStart js s ts)) i = None"
  using assms
proof (induction ts arbitrary: s)
  case Nil
  then show ?case by (simp add: handleTouchStart_def)
next
  case (Cons t ts)
  let ?s1 = "fst (touchStartStep js s t)"
  have 1: "\<forall>i. joystickTouchId ?s1 = Some i \<longrightarrow> buttonTouches ?s1 i = None"
    using Cons.prems by (intro touchStartStep_exclusive) simp_all
  have 2: "\<forall>u \<in> set ts. unbound ?s1 (touch_identifier u)"
    using Cons.prems by (auto intro!: touchStartStep_unbound_other)
  have "\<forall>i. joystickTouchId (fst (handleTouchStart js ?s1 ts)) = Some i \<longrightarrow>
     buttonTouches (fst (handleTouchStart js ?s1 ts)) i = None"
    using 1 2 Cons.prems(2) by (intro Cons.IH) simp_all
  then show ?case
    by (simp add: handleTouchStart_def split_beta Let_def)
qed

lemma touchEndStep_exclusive:
  assumes "\<forall>i. joystickTouchId s = Some i \<longrightarrow> buttonTouches s i = None"
  shows "\<forall>i. joystickTouchId (fst (touchEndStep a s t)) = Some i \<longrightarrow>
     buttonTouches (fst (touchEndStep a s t)) i = None"
  using assms
  by (auto simp: touchEndStep_def releaseJoystick_def Let_def split: option.splits if_splits)

lemma touchMoveStep_exclusive:
  assumes "\<forall>i. joystickTouchId s = Some i \<longrightarrow> buttonTouches s i = None"
  shows "\<forall>i. joystickTouchId (fst (touchMoveStep js s t)) = Some i \<longrightarrow>
     buttonTouches (fst (touchMoveStep js s t)) i = None"
  using assms touchMoveStep_shape [of js s t] by auto

lemma dispatch_exclusive:
  assumes "\<forall>i. joystickTouchId s = Some i \<longrightarrow> buttonTouches s i = None"
    and "well_formed s b"
  shows "\<forall>i. joystickTouchId (fst (dispatch js s b)) = Some i \<longrightarrow>
     buttonTouches (fst (dispatch js s b)) i = None"
proof (cases b)
  case (TouchStart ts)
  with assms show ?thesis
    by (simp del: not_None_eq) (intro handleTouchStart_exclusive, simp_all)
next
  case (TouchMove ts)
  show ?thesis
    unfolding TouchMove dispatch.simps handleTouchMove_def
    by (rule forOf_preserves
        [where P = "\<lambda>s. \<forall>i. joystickTouchId s = Some i \<longrightarrow> buttonTouches s i = None"])
      (use assms in \<open>simp_all add: touchMoveStep_exclusive\<close>)
next
  case (TouchEnd ts)
  show ?thesis
    unfolding TouchEnd dispatch.simps handleTouchEnd_def
    by (rule forOf_preserves
        [where P = "\<lambda>s. \<forall>i. joystickTouchId s = Some i \<longrightarrow> buttonTouches s i = None"])
      (use assms in \<open>simp_all add: touchEndStep_exclusive\<close>)
next
  case (TouchCancel ts)
  show ?thesis
    unfolding TouchCancel dispatch.simps handleTouchEnd_def
    by (rule forOf_preserves
        [where P = "\<lambda>s. \<forall>i. joystickTouchId s = Some i \<longrightarrow> buttonTouches s i = None"])
      (use assms in \<open>simp_all add: touchEndStep_exclusive\<close>)
next
  case (Layout w h)
  with assms show ?thesis by (simp add: onLayout_def)
qed

lemma reachable_exclusive:
  assumes "reachable js s"
  shows "\<forall>i. joystickTouchId s = Some i \<longrightarrow> buttonTouches s i = None"
  using assms
proof induction
  case (reachable_init w h)
  show ?case by (simp add: initialState_def)
next
  case (reachable_step s b)
  then show ?case by (intro dispatch_exclusive)
qed

section \<open>Evaluating the concrete screen\<close>

lemmas example_defs = exampleScreen_def initialState_def touchAt_def

lemmas hit_test_eval =
  hitTestJoystick_squares hitTestButtons_def buttons_def hitTestButtonsFrom_squares

lemma example_joystick_start:
  "fst (handleTouchStart 140 exampleScreen [touchAt 1 100 290]) =
     exampleScreen\<lparr>joystickTouchId := Some 1, joyActive := True, joyPos := (0, 0)\<rparr>"
  by (simp add: handleTouchStart_def touchStartStep_def hitTestJoystick_squares
      startJoystickWithTouch_def moveJoystickWithTouch_def joystickCenter_def joystickLeft_def
      joystickBottom_def maxDistance_def Let_def example_defs)

lemma example_two_on_attack:
  "fst (dispatch 140 exampleScreen (TouchStart [touchAt 1 750 290, touchAt 2 750 290])) =
     exampleScreen\<lparr>buttonTouches := [1 \<mapsto> Attack, 2 \<mapsto> Attack], pressedButtons := {Attack}\<rparr>"
  by (simp add: handleTouchStart_def touchStartStep_def hit_test_eval Let_def example_defs
      del: hitTestButtonsFrom.simps(2))

section \<open>Hit tests read the overlay size only\<close>

lemma hitTestButtonsFrom_overlay:
  assumes "overlaySize s' = overlaySize s"
  shows "hitTestButtonsFrom s' x y bs = hitTestButtonsFrom s x y bs"
  using assms by (induction bs) (simp_all add: getButtonCenter_def Let_def)

lemma hitTestButtons_overlay:
  assumes "overlaySize s' = overlaySize s"
  shows "hitTestButtons s' x y = hitTestButtons s x y"
  unfolding hitTestButtons_def using assms by (rule hitTestButtonsFrom_overlay)

lemma hitTestJoystick_overlay:
  assumes "overlaySize s' = overlaySize s"
  shows "hitTestJoystick js s' x y = hitTestJoystick js s x y"
  using assms by (simp add: hitTestJoystick_def joystickCenter_def)

lemma touchStartStep_button:
  assumes "\<not> hitTestJoystick js s (pageX t) (pageY t)"
    and "hitTestButtons s (pageX t) (pageY t) = Some b"
  shows "touchStartStep js s t =
     (s\<lparr>buttonTouches := (buttonTouches s)(touch_identifier t \<mapsto> b),
        pressedButtons := insert b (pressedButtons s)\<rparr>, [ButtonPress b])"
  using assms by (simp add: touchStartStep_def Let_def)

lemma two_buttons_at_once:
  assumes "touch_identifier t \<noteq> touch_identifier u"
    and "\<not> hitTestJoystick js s (pageX t) (pageY t)"
    and "\<not> hitTestJoystick js s (pageX u) (pageY u)"
    and "hitTestButtons s (pageX t) (pageY t) = Some b"
    and "hitTestButtons s (pageX u) (pageY u) = Some c"
  shows "bound_to (fst (dispatch js s (TouchStart [t, u]))) (touch_identifier t) (Button b) \<and>
         bound_to (fst (dispatch js s (TouchStart [t, u]))) (touch_identifier u) (Button c) \<and>
         b \<in> pressedButtons (fst (dispatch js s (TouchStart [t, u]))) \<and>
         c \<in> pressedButtons (fst (dispatch js s (TouchStart [t, u])))"
proof -
  let ?s1 = "s\<lparr>buttonTouches := (buttonTouches s)(touch_identifier t \<mapsto> b),
        pressedButtons := insert b (pressedButtons s)\<rparr>"
  have 1: "touchStartStep js s t = (?s1, [ButtonPress b])"
    using assms(2,4) by (rule touchStartStep_button)
  have o: "overlaySize ?s1 = overlaySize s" by simp
  have 2: "touchStartStep js ?s1 u =
     (?s1\<lparr>buttonTouches := (buttonTouches ?s1)(touch_identifier u \<mapsto> c),
        pressedButtons := insert c (pressedButtons ?s1)\<rparr>, [ButtonPress c])"
    using assms(3,5)
    by (intro touchStartStep_button)
      (simp_all add: hitTestJoystick_overlay [OF o] hitTestButtons_overlay [OF o])
  show ?thesis
    using assms(1) by (simp add: handleTouchStart_def 1 2)
qed

section \<open>Binding exclusivity\<close>

text \<open>
  Claim C1, as amended. In every state reached from the initial one by well-formed batches:
  a touch is bound to at most one control (it is never the joystick's touch and a key of
  the button table at once); at most one touch is bound to the joystick, and a begin batch
  never takes the joystick from the touch that holds it; and two touches with different
  identifiers that begin over two different buttons are both bound, each to its button, with
  both buttons pressed. The code has no guard that keeps a second touch off a button that
  is already held, so nothing is said about one button and several touches.
\<close>

theorem binding_exclusivity:
  assumes "reachable js s"
  shows "(\<forall>i c c'. bound_to s i c \<and> bound_to s i c' \<longrightarrow> c = c') \<and>
         (\<forall>i j. bound_to s i Joystick \<and> bound_to s j Joystick \<longrightarrow> i = j) \<and>
         (\<forall>i ts. bound_to s i Joystick \<longrightarrow>
            bound_to (fst (dispatch js s (TouchStart ts))) i Joystick) \<and>
         (\<forall>t u b c.
            touch_identifier t \<noteq> touch_identifier u \<and> b \<noteq> c \<and>
            \<not> hitTestJoystick js s (pageX t) (pageY t) \<and>
            \<not> hitTestJoystick js s (pageX u) (pageY u) \<and>
            hitTestButtons s (pageX t) (pageY t) = Some b \<and>
            hitTestButtons s (pageX u) (pageY u) = Some c \<longrightarrow>
            bound_to (fst (dispatch js s (TouchStart [t, u]))) (touch_identifier t) (Button b) \<and>
            bound_to (fst (dispatch js s (TouchStart [t, u]))) (touch_identifier u) (Button c) \<and>
            b \<in> pressedButtons (fst (dispatch js s (TouchStart [t, u]))) \<and>
            c \<in> pressedButtons (fst (dispatch js s (TouchStart [t, u]))))"
proof (intro conjI allI impI)
  fix i c c'
  assume a: "bound_to s i c \<and> bound_to s i c'"
  from reachable_exclusive [OF assms]
  have "joystickTouchId s = Some i \<Longrightarrow> buttonTouches s i = None" by blast
  with a show "c = c'"
    by (cases c; cases c') auto
next
  fix i j
  assume "bound_to s i Joystick \<and> bound_to s j Joystick"
  then show "i = j" by auto
next
  fix i ts
  assume "bound_to s i Joystick"
  then show "bound_to (fst (dispatch js s (TouchStart ts))) i Joystick"
    by (simp add: handleTouchStart_keeps_joystick)
next
  fix t u :: touch and b c :: ActionType
  assume a: "touch_identifier t \<noteq> touch_identifier u \<and> b \<noteq> c \<and>
            \<not> hitTestJoystick js s (pageX t) (pageY t) \<and>
            \<not> hitTestJoystick js s (pageX u) (pageY u) \<and>
            hitTestButtons s (pageX t) (pageY t) = Some b \<and>
            hitTestButtons s (pageX u) (pageY u) = Some c"
  then have *: "bound_to (fst (dispatch js s (TouchStart [t, u]))) (touch_identifier t) (Button b) \<and>
         bound_to (fst (dispatch js s (TouchStart [t, u]))) (touch_identifier u) (Button c) \<and>
         b \<in> pressedButtons (fst (dispatch js s (TouchStart [t, u]))) \<and>
         c \<in> pressedButtons (fst (dispatch js s (TouchStart [t, u])))"
    by (intro two_buttons_at_once) simp_all
  from * show "bound_to (fst (dispatch js s (TouchStart [t, u]))) (touch_identifier t) (Button b)" by blast
  from * show "bound_to (fst (dispatch js s (TouchStart [t, u]))) (touch_identifier u) (Button c)" by blast
  from * show "b \<in> pressedButtons (fst (dispatch js s (TouchStart [t, u])))" by blast
  from * show "c \<in> pressedButtons (fst (dispatch js s (TouchStart [t, u])))" by blast
qed

theorem binding_exclusivity_witness:
  "reachable 140 (exampleScreen\<lparr>joystickTouchId := Some 1, joyActive := True, joyPos := (0, 0)\<rparr>) \<and>
   bound_to (exampleScreen\<lparr>joystickTouchId := Some 1, joyActive := True, joyPos := (0, 0)\<rparr>)
     1 Joystick \<and>
   \<not> bound_to (exampleScreen\<lparr>joystickTouchId := Some 1, joyActive := True, joyPos := (0, 0)\<rparr>)
     1 (Button Attack) \<and>
   bound_to (fst (dispatch 140
       (exampleScreen\<lparr>joystickTouchId := Some 1, joyActive := True, joyPos := (0, 0)\<rparr>)
       (TouchStart [touchAt 2 670 230, touchAt 3 750 290]))) 2 (Button Jump) \<and>
   bound_to (fst (dispatch 140
       (exampleScreen\<lparr>joystickTouchId := Some 1, joyActive := True, joyPos := (0, 0)\<rparr>)
       (TouchStart [touchAt 2 670 230, touchAt 3 750 290]))) 3 (Button Attack)"
proof -
  let ?s = "exampleScreen\<lparr>joystickTouchId := Some 1, joyActive := True, joyPos := (0, 0)\<rparr>"
  have w: "well_formed exampleScreen (TouchStart [touchAt 1 100 290])"
    by (simp add: unbound_def example_defs)
  have "reachable 140 exampleScreen"
    unfolding exampleScreen_def by (rule reachable_init)
  then have "reachable 140 (fst (dispatch 140 exampleScreen (TouchStart [touchAt 1 100 290])))"
    using w by (rule reachable_step)
  then have r: "reachable 140 ?s"
    by (simp add: example_joystick_start)
  note ex = binding_exclusivity [OF r]
  have j: "bound_to ?s 1 Joystick" by simp
  from ex have "bound_to ?s 1 Joystick \<and> bound_to ?s 1 (Button Attack) \<longrightarrow> Joystick = Button Attack"
    by blast
  with j have n: "\<not> bound_to ?s 1 (Button Attack)" by blast
  have h: "touch_identifier (touchAt 2 670 230) \<noteq> touch_identifier (touchAt 3 750 290) \<and> Jump \<noteq> Attack \<and>
      \<not> hitTestJoystick 140 ?s (pageX (touchAt 2 670 230)) (pageY (touchAt 2 670 230)) \<and>
      \<not> hitTestJoystick 140 ?s (pageX (touchAt 3 750 290)) (pageY (touchAt 3 750 290)) \<and>
      hitTestButtons ?s (pageX (touchAt 2 670 230)) (pageY (touchAt 2 670 230)) = Some Jump \<and>
      hitTestButtons ?s (pageX (touchAt 3 750 290)) (pageY (touchAt 3 750 290)) = Some Attack"
    by (simp add: hit_test_eval example_defs del: hitTestButtonsFrom.simps(2))
  from ex have "touch_identifier (touchAt 2 670 230) \<noteq> touch_identifier (touchAt 3 750 290) \<and> Jump \<noteq> Attack \<and>
      \<not> hitTestJoystick 140 ?s (pageX (touchAt 2 670 230)) (pageY (touchAt 2 670 230)) \<and>
      \<not> hitTestJoystick 140 ?s (pageX (touchAt 3 750 290)) (pageY (touchAt 3 750 290)) \<and>
      hitTestButtons ?s (pageX (touchAt 2 670 230)) (pageY (touchAt 2 670 230)) = Some Jump \<and>
      hitTestButtons ?s (pageX (touchAt 3 750 290)) (pageY (touchAt 3 750 290)) = Some Attack \<longrightarrow>
      bound_to (fst (dispatch 140 ?s (TouchStart [touchAt 2 670 230, touchAt 3 750 290])))
        (touch_identifier (touchAt 2 670 230)) (Button Jump) \<and>
      bound_to (fst (dispatch 140 ?s (TouchStart [touchAt 2 670 230, touchAt 3 750 290])))
        (touch_identifier (touchAt 3 750 290)) (Button Attack) \<and>
      Jump \<in> pressedButtons (fst (dispatch 140 ?s (TouchStart [touchAt 2 670 230, touchAt 3 750 290]))) \<and>
      Attack \<in> pressedButtons (fst (dispatch 140 ?s (TouchStart [touchAt 2 670 230, touchAt 3 750 290])))"
    by blast
  with h have
    "bound_to (fst (dispatch 140 ?s (TouchStart [touchAt 2 670 230, touchAt 3 750 290])))
        (touch_identifier (touchAt 2 670 230)) (Button Jump) \<and>
     bound_to (fst (dispatch 140 ?s (TouchStart [touchAt 2 670 230, touchAt 3 750 290])))
        (touch_identifier (touchAt 3 750 290)) (Button Attack)"
    by blast
  then have
    "bound_to (fst (dispatch 140 ?s (TouchStart [touchAt 2 670 230, touchAt 3 750 290]))) 2 (Button Jump) \<and>
     bound_to (fst (dispatch 140 ?s (TouchStart [touchAt 2 670 230, touchAt 3 750 290]))) 3 (Button Attack)"
    by (simp add: touchAt_def del: dispatch.simps bound_to.simps)
  with r j n show ?thesis by blast
qed

text \<open>
  Claim C1 as stated fails: on the concrete screen two touches with different identifiers
  begin, in one well-formed batch, at the centre of the attack button, and both are bound
  to it.
\<close>

theorem binding_exclusivity_counterexample:
  "well_formed exampleScreen (TouchStart [touchAt 1 750 290, touchAt 2 750 290]) \<and>
   reachable 140 (fst (dispatch 140 exampleScreen (TouchStart [touchAt 1 750 290, touchAt 2 750 290]))) \<and>
   bound_to (fst (dispatch 140 exampleScreen (TouchStart [touchAt 1 750 290, touchAt 2 750 290])))
     1 (Button Attack) \<and>
   bound_to (fst (dispatch 140 exampleScreen (TouchStart [touchAt 1 750 290, touchAt 2 750 290])))
     2 (Button Attack)"
proof -
  have w: "well_formed exampleScreen (TouchStart [touchAt 1 750 290, touchAt 2 750 290])"
    by (simp add: unbound_def example_defs)
  have "reachable 140 exampleScreen"
    unfolding exampleScreen_def by (rule reachable_init)
  then have "reachable 140 (fst (dispatch 140 exampleScreen (TouchStart [touchAt 1 750 290, touchAt 2 750 290])))"
    using w by (rule reachable_step)
  with w show ?thesis
    by (simp add: example_two_on_attack del: dispatch.simps well_formed.simps)
qed

section \<open>Touches without a binding\<close>

lemma touchMoveStep_unbound:
  assumes "unbound s (touch_identifier t)"
  shows "touchMoveStep js s t = (s, [])"
  using assms by (auto simp: touchMoveStep_def unbound_def)

lemma touchEndStep_unbound:
  assumes "unbound s (touch_identifier t)"
  shows "touchEndStep a s t = (s, [])"
  using assms by (auto simp: touchEndStep_def unbound_def Let_def)

text \<open>
  Claim C8. The step of a move, end or cancel batch for a touch that has no binding leaves
  the state as it is and makes no call; so does a whole move, end or cancel batch all of
  whose touches have no binding.
\<close>

theorem unbound_ids_ignored:
  "(unbound s (touch_identifier t) \<longrightarrow>
      touchMoveStep js s t = (s, []) \<and> touchEndStep a s t = (s, [])) \<and>
   ((\<forall>t \<in> set ts. unbound s (touch_identifier t)) \<longrightarrow>
      dispatch js s (TouchMove ts) = (s, []) \<and>
      dispatch js s (TouchEnd ts) = (s, []) \<and>
      dispatch js s (TouchCancel ts) = (s, []))"
proof (intro conjI impI)
  assume "unbound s (touch_identifier t)"
  then show "touchMoveStep js s t = (s, [])" "touchEndStep a s t = (s, [])"
    by (rule touchMoveStep_unbound, rule touchEndStep_unbound)
next
  assume u: "\<forall>t \<in> set ts. unbound s (touch_identifier t)"
  show "dispatch js s (TouchMove ts) = (s, [])"
    unfolding dispatch.simps handleTouchMove_def
    by (rule forOf_noop) (use u in \<open>simp add: touchMoveStep_unbound\<close>)
  have e: "handleTouchEnd s ts = (s, [])"
    unfolding handleTouchEnd_def
    by (rule forOf_noop) (use u in \<open>simp add: touchEndStep_unbound\<close>)
  then show "dispatch js s (TouchEnd ts) = (s, [])" "dispatch js s (TouchCancel ts) = (s, [])"
    by simp_all
qed

theorem unbound_ids_ignored_witness:
  "unbound (exampleScreen\<lparr>joystickTouchId := Some 1, joyActive := True\<rparr>) 2 \<and>
   touchMoveStep 140 (exampleScreen\<lparr>joystickTouchId := Some 1, joyActive := True\<rparr>)
     (touchAt 2 100 290) =
     (exampleScreen\<lparr>joystickTouchId := Some 1, joyActive := True\<rparr>, []) \<and>
   dispatch 140 (exampleScreen\<lparr>joystickTouchId := Some 1, joyActive := True\<rparr>)
     (TouchMove [touchAt 2 100 290]) =
     (exampleScreen\<lparr>joystickTouchId := Some 1, joyActive := True\<rparr>, []) \<and>
   dispatch 140 (exampleScreen\<lparr>joystickTouchId := Some 1, joyActive := True\<rparr>)
     (TouchEnd [touchAt 2 100 290]) =
     (exampleScreen\<lparr>joystickTouchId := Some 1, joyActive := True\<rparr>, []) \<and>
   dispatch 140 (exampleScreen\<lparr>joystickTouchId := Some 1, joyActive := True\<rparr>)
     (TouchCancel [touchAt 2 100 290]) =
     (exampleScreen\<lparr>joystickTouchId := Some 1, joyActive := True\<rparr>, [])"
proof -
  let ?s = "exampleScreen\<lparr>joystickTouchId := Some 1, joyActive := True\<rparr>"
  have u: "unbound ?s 2"
    by (simp add: unbound_def example_defs)
  then have one: "unbound ?s (touch_identifier (touchAt 2 100 290))"
    by (simp add: touchAt_def)
  then have all: "\<forall>t \<in> set [touchAt 2 100 290]. unbound ?s (touch_identifier t)"
    by simp
  from unbound_ids_ignored [of ?s "touchAt 2 100 290" 140 True "[touchAt 2 100 290]"] one all
  have "touchMoveStep 140 ?s (touchAt 2 100 290) = (?s, []) \<and>
      dispatch 140 ?s (TouchMove [touchAt 2 100 290]) = (?s, []) \<and>
      dispatch 140 ?s (TouchEnd [touchAt 2 100 290]) = (?s, []) \<and>
      dispatch 140 ?s (TouchCancel [touchAt 2 100 290]) = (?s, [])"
    by blast
  with u show ?thesis by blast
qed

section \<open>Layout\<close>

text \<open>
  Claim C9. A layout event of width or height zero leaves the state as it is; any other
  stores the new size and nothing else: the button table, the joystick's touch, its active
  flag and knob offset and the pressed buttons are unchanged, and no call is made.
\<close>

theorem layout_frame:
  "onLayout s width height =
     (if width = 0 \<or> height = 0 then s else s\<lparr>overlaySize := (width, height)\<rparr>) \<and>
   buttonTouches (onLayout s width height) = buttonTouches s \<and>
   joystickTouchId (onLayout s width height) = joystickTouchId s \<and>
   joyActive (onLayout s width height) = joyActive s \<and>
   joyPos (onLayout s width height) = joyPos s \<and>
   pressedButtons (onLayout s width height) = pressedButtons s \<and>
   dispatch js s (Layout width height) = (onLayout s width height, [])"
  by (simp add: onLayout_def)

theorem layout_frame_witness:
  "onLayout (exampleScreen\<lparr>joystickTouchId := Some 1, joyActive := True\<rparr>) 0 300 =
     exampleScreen\<lparr>joystickTouchId := Some 1, joyActive := True\<rparr> \<and>
   onLayout (exampleScreen\<lparr>joystickTouchId := Some 1, joyActive := True\<rparr>) 1024 0 =
     exampleScreen\<lparr>joystickTouchId := Some 1, joyActive := True\<rparr> \<and>
   onLayout (exampleScreen\<lparr>joystickTouchId := Some 1, joyActive := True\<rparr>) 1024 768 =
     exampleScreen\<lparr>joystickTouchId := Some 1, joyActive := True, overlaySize := (1024, 768)\<rparr> \<and>
   joystickTouchId (onLayout (exampleScreen\<lparr>joystickTouchId := Some 1, joyActive := True\<rparr>) 1024 768)
     = Some 1"
  using layout_frame [of "exampleScreen\<lparr>joystickTouchId := Some 1, joyActive := True\<rparr>" 0 300]
    layout_frame [of "exampleScreen\<lparr>joystickTouchId := Some 1, joyActive := True\<rparr>" 1024 0]
    layout_frame [of "exampleScreen\<lparr>joystickTouchId := Some 1, joyActive := True\<rparr>" 1024 768]
  by simp

section \<open>The joystick update\<close>

lemma clamp_max_min: "max (- 1) (min 1 v) = clamp v (- 1) 1"
  by (simp add: clamp_def max_def min_def)

lemma angle_js_rem:
  "js_rem (atan2 dy dx * 180 / pi + 360) 360 = spec_mod (in_degrees (atan2 dy dx) + 360) 360"
proof -
  have "- pi < atan2 dy dx" using atan2_bounds [of dy dx] by simp
  then have "- pi * 180 < atan2 dy dx * 180" by simp
  then have "- 180 < atan2 dy dx * 180 / pi"
    using pi_gt_zero by (simp add: pos_less_divide_eq mult.commute)
  then have "0 \<le> atan2 dy dx * 180 / pi + 360" by simp
  then show ?thesis
    unfolding in_degrees_def by (intro js_rem_nonneg) simp_all
qed

lemma moveJoystickWithTouch_events:
  "snd (moveJoystickWithTouch js s x y) =
     [JoystickMove (spec_joystick_update (x - fst (joystickCenter js s))
        (y - snd (joystickCenter js s)) (maxDistance js))]"
  by (simp add: moveJoystickWithTouch_def Let_def split_beta spec_joystick_update_def
      clamp_max_min angle_js_rem offset_length_def power2_eq_square)

lemma spec_joystick_update_range:
  assumes "0 < m"
  shows "- 1 \<le> jd_x (spec_joystick_update dx dy m) \<and> jd_x (spec_joystick_update dx dy m) \<le> 1 \<and>
         - 1 \<le> jd_y (spec_joystick_update dx dy m) \<and> jd_y (spec_joystick_update dx dy m) \<le> 1 \<and>
         0 \<le> jd_angle (spec_joystick_update dx dy m) \<and> jd_angle (spec_joystick_update dx dy m) < 360 \<and>
         0 \<le> jd_distance (spec_joystick_update dx dy m) \<and> jd_distance (spec_joystick_update dx dy m) \<le> 1"
proof -
  have a: "0 \<le> spec_mod (in_degrees (atan2 dy dx) + 360) 360 \<and>
           spec_mod (in_degrees (atan2 dy dx) + 360) 360 < 360"
    by (rule spec_mod_range) simp
  have "0 \<le> offset_length dx dy" by (simp add: offset_length_def)
  with assms have d: "0 \<le> offset_length dx dy / m" by simp
  show ?thesis
    using a d by (simp add: spec_joystick_update_def clamp_def)
qed

lemma forOf_events_mem:
  assumes "e \<in> set (snd (forOf body s ts))"
  shows "\<exists>s' t. t \<in> set ts \<and> e \<in> set (snd (body s' t))"
  using assms
proof (induction ts arbitrary: s)
  case Nil
  then show ?case by simp
next
  case (Cons t ts)
  then have "e \<in> set (snd (body s t)) \<or> e \<in> set (snd (forOf body (fst (body s t)) ts))"
    by (simp add: split_beta Let_def)
  then show ?case
  proof
    assume "e \<in> set (snd (body s t))"
    then show ?thesis by auto
  next
    assume "e \<in> set (snd (forOf body (fst (body s t)) ts))"
    from Cons.IH [OF this] show ?thesis by auto
  qed
qed

lemma touchMoveStep_events:
  "snd (touchMoveStep js s t) =
     (if Some (touch_identifier t) = joystickTouchId s
      then [JoystickMove (spec_joystick_update (fst (joystickOffset js s t))
              (snd (joystickOffset js s t)) (maxDistance js))]
      else [])"
  by (simp add: touchMoveStep_def moveJoystickWithTouch_events joystickOffset_def)

lemma touchStartStep_update:
  assumes "JoystickMove d \<in> set (snd (touchStartStep js s t))"
  shows "\<exists>dx dy. d = spec_joystick_update dx dy (maxDistance js)"
  using assms
  by (auto simp: touchStartStep_def startJoystickWithTouch_def moveJoystickWithTouch_events Let_def
      split: if_splits option.splits)

lemma touchMoveStep_update:
  assumes "JoystickMove d \<in> set (snd (touchMoveStep js s t))"
  shows "\<exists>dx dy. d = spec_joystick_update dx dy (maxDistance js)"
  using assms by (auto simp: touchMoveStep_events split: if_splits)

lemma touchEndStep_update:
  "JoystickMove d \<notin> set (snd (touchEndStep a s t))"
  by (auto simp: touchEndStep_def releaseJoystick_def Let_def split: if_splits option.splits)

lemma dispatch_update:
  assumes "JoystickMove d \<in> set (snd (dispatch js s b))"
  shows "\<exists>dx dy. d = spec_joystick_update dx dy (maxDistance js)"
proof (cases b)
  case (TouchStart ts)
  with assms show ?thesis
    by (auto simp: handleTouchStart_def dest!: forOf_events_mem touchStartStep_update)
next
  case (TouchMove ts)
  with assms show ?thesis
    by (auto simp: handleTouchMove_def dest!: forOf_events_mem touchMoveStep_update)
next
  case (TouchEnd ts)
  with assms show ?thesis
    by (auto simp: handleTouchEnd_def touchEndStep_update dest!: forOf_events_mem)
next
  case (TouchCancel ts)
  with assms show ?thesis
    by (auto simp: handleTouchEnd_def touchEndStep_update dest!: forOf_events_mem)
next
  case (Layout w h)
  with assms show ?thesis by simp
qed

lemma joystickOffset_overlay:
  assumes "overlaySize s' = overlaySize s"
  shows "joystickOffset js s' t = joystickOffset js s t"
  using assms by (simp add: joystickOffset_def joystickCenter_def)

lemma forOf_touchMoveStep_events:
  assumes "overlaySize s' = overlaySize s" "joystickTouchId s' = joystickTouchId s"
  shows "snd (forOf (touchMoveStep js) s' ts) =
     map (\<lambda>t. JoystickMove (spec_joystick_update (fst (joystickOffset js s t))
              (snd (joystickOffset js s t)) (maxDistance js)))
       (filter (\<lambda>t. Some (touch_identifier t) = joystickTouchId s) ts)"
  using assms
proof (induction ts arbitrary: s')
  case Nil
  then show ?case by simp
next
  case (Cons t ts)
  obtain p where p: "fst (touchMoveStep js s' t) = s'\<lparr>joyPos := p\<rparr>"
    using touchMoveStep_shape by blast
  have "snd (forOf (touchMoveStep js) (fst (touchMoveStep js s' t)) ts) =
     map (\<lambda>t. JoystickMove (spec_joystick_update (fst (joystickOffset js s t))
              (snd (joystickOffset js s t)) (maxDistance js)))
       (filter (\<lambda>t. Some (touch_identifier t) = joystickTouchId s) ts)"
    using Cons.prems by (intro Cons.IH) (simp_all add: p)
  then show ?case
    using Cons.prems
    by (simp add: split_beta Let_def touchMoveStep_events joystickOffset_overlay [of s' s])
qed

lemma offset_length_axis [simp]: "offset_length dx 0 = \<bar>dx\<bar>" "offset_length 0 dy = \<bar>dy\<bar>"
  by (simp_all add: offset_length_def)

lemma atan2_axis [simp]:
  "0 < dx \<Longrightarrow> atan2 0 dx = 0" "0 < dy \<Longrightarrow> atan2 dy 0 = pi / 2" "atan2 0 0 = 0"
  by (simp_all add: atan2_def)

lemma spec_update_right: "spec_joystick_update 50 0 50 = \<lparr>jd_x = 1, jd_y = 0, jd_angle = 0, jd_distance = 1\<rparr>"
  by (simp add: spec_joystick_update_def clamp_def in_degrees_def spec_mod_def)

text \<open>
  Claim C3. Let \<open>40 < joystickSize\<close>, so that the travel is positive. A move batch makes
  exactly one \<open>onJoystickMove\<close> call for each of its touches that is the joystick's
  touch, in order, and no other call; with \<open>(dx, dy)\<close> the touch position minus the
  joystick centre, the data of the call are \<open>x = clamp (dx / maxTravel) (-1) 1\<close>,
  \<open>y = clamp (dy / maxTravel) (-1) 1\<close>, \<open>angle = (atan2 dy dx\<close> in degrees
  \<open>+ 360) mod 360\<close> and \<open>distance = min (|offset| / maxTravel) 1\<close>. Every update
  that any batch emits has \<open>x\<close> and \<open>y\<close> in \<open>[-1, 1]\<close>, its angle in \<open>[0, 360)\<close>
  and its distance in \<open>[0, 1]\<close>.
\<close>

theorem joystick_move_output:
  assumes "40 < js"
  shows "snd (dispatch js s (TouchMove ts)) =
           map (\<lambda>t. JoystickMove (spec_joystick_update (fst (joystickOffset js s t))
                    (snd (joystickOffset js s t)) (maxDistance js)))
             (filter (\<lambda>t. Some (touch_identifier t) = joystickTouchId s) ts) \<and>
         (\<forall>b d. JoystickMove d \<in> set (snd (dispatch js s b)) \<longrightarrow>
            - 1 \<le> jd_x d \<and> jd_x d \<le> 1 \<and> - 1 \<le> jd_y d \<and> jd_y d \<le> 1 \<and>
            0 \<le> jd_angle d \<and> jd_angle d < 360 \<and> 0 \<le> jd_distance d \<and> jd_distance d \<le> 1)"
proof (intro conjI allI impI)
  show "snd (dispatch js s (TouchMove ts)) =
           map (\<lambda>t. JoystickMove (spec_joystick_update (fst (joystickOffset js s t))
                    (snd (joystickOffset js s t)) (maxDistance js)))
             (filter (\<lambda>t. Some (touch_identifier t) = joystickTouchId s) ts)"
    by (simp add: handleTouchMove_def forOf_touchMoveStep_events)
next
  fix b d
  assume "JoystickMove d \<in> set (snd (dispatch js s b))"
  then obtain dx dy where d: "d = spec_joystick_update dx dy (maxDistance js)"
    using dispatch_update by blast
  have m: "0 < maxDistance js"
    using assms by (simp add: maxDistance_def)
  note r = spec_joystick_update_range [OF m, of dx dy, folded d]
  from r show "- 1 \<le> jd_x d" by blast
  from r show "jd_x d \<le> 1" by blast
  from r show "- 1 \<le> jd_y d" by blast
  from r show "jd_y d \<le> 1" by blast
  from r show "0 \<le> jd_angle d" by blast
  from r show "jd_angle d < 360" by blast
  from r show "0 \<le> jd_distance d" by blast
  from r show "jd_distance d \<le> 1" by blast
qed

theorem joystick_move_output_witness:
  "(40::real) < 140 \<and>
   snd (dispatch 140 (exampleScreen\<lparr>joystickTouchId := Some 1, joyActive := True\<rparr>)
     (TouchMove [touchAt 2 750 290, touchAt 1 150 290])) =
     [JoystickMove \<lparr>jd_x = 1, jd_y = 0, jd_angle = 0, jd_distance = 1\<rparr>]"
proof -
  have h: "(40::real) < 140" by simp
  have o: "joystickOffset 140 (exampleScreen\<lparr>joystickTouchId := Some 1, joyActive := True\<rparr>)
      (touchAt 1 150 290) = (50, 0)"
    by (simp add: joystickOffset_def joystickCenter_def joystickLeft_def joystickBottom_def example_defs)
  from joystick_move_output [OF h, of "exampleScreen\<lparr>joystickTouchId := Some 1, joyActive := True\<rparr>"
      "[touchAt 2 750 290, touchAt 1 150 290]"]
  have "snd (dispatch 140 (exampleScreen\<lparr>joystickTouchId := Some 1, joyActive := True\<rparr>)
     (TouchMove [touchAt 2 750 290, touchAt 1 150 290])) =
     map (\<lambda>t. JoystickMove (spec_joystick_update
            (fst (joystickOffset 140 (exampleScreen\<lparr>joystickTouchId := Some 1, joyActive := True\<rparr>) t))
            (snd (joystickOffset 140 (exampleScreen\<lparr>joystickTouchId := Some 1, joyActive := True\<rparr>) t))
            (maxDistance 140)))
       (filter (\<lambda>t. Some (touch_identifier t) =
           joystickTouchId (exampleScreen\<lparr>joystickTouchId := Some 1, joyActive := True\<rparr>))
         [touchAt 2 750 290, touchAt 1 150 290])"
    by blast
  also have "\<dots> = [JoystickMove \<lparr>jd_x = 1, jd_y = 0, jd_angle = 0, jd_distance = 1\<rparr>]"
    using o by (simp add: spec_update_right maxDistance_def) (simp add: touchAt_def)
  finally show ?thesis
    using h by blast
qed

section \<open>Binding the joystick on begin\<close>

lemma in_circle_joystick:
  "hitTestJoystick js s x y = in_circle (joystickCenter js s) (js / 2) x y"
  by (simp add: hitTestJoystick_def in_circle_def offset_length_def Let_def power2_eq_square)

lemma touchStartStep_joystick:
  assumes "joystickTouchId s = None" "hitTestJoystick js s (pageX t) (pageY t)"
  shows "touchStartStep js s t =
     (s\<lparr>joystickTouchId := Some (touch_identifier t), joyActive := True,
        joyPos := joyPos (fst (moveJoystickWithTouch js s (pageX t) (pageY t)))\<rparr>,
      [JoystickMove (spec_joystick_update (fst (joystickOffset js s t))
          (snd (joystickOffset js s t)) (maxDistance js))])"
proof -
  let ?s' = "s\<lparr>joystickTouchId := Some (touch_identifier t), joyActive := True\<rparr>"
  have c: "joystickCenter js ?s' = joystickCenter js s"
    by (simp add: joystickCenter_def)
  have e: "snd (moveJoystickWithTouch js ?s' (pageX t) (pageY t)) =
      [JoystickMove (spec_joystick_update (fst (joystickOffset js s t))
          (snd (joystickOffset js s t)) (maxDistance js))]"
    by (simp add: moveJoystickWithTouch_events c joystickOffset_def)
  have f: "fst (moveJoystickWithTouch js ?s' (pageX t) (pageY t)) =
      ?s'\<lparr>joyPos := joyPos (fst (moveJoystickWithTouch js s (pageX t) (pageY t)))\<rparr>"
    by (simp add: moveJoystickWithTouch_def Let_def split_beta c)
  have "touchStartStep js s t = moveJoystickWithTouch js ?s' (pageX t) (pageY t)"
    using assms by (simp add: touchStartStep_def startJoystickWithTouch_def Let_def)
  with e f show ?thesis
    by (metis prod.collapse)
qed

lemma touchStartStep_keeps_active:
  assumes "joyActive s"
  shows "joyActive (fst (touchStartStep js s t))"
  using assms by (cases rule: touchStartStep_cases [of s js t]) auto

lemma handleTouchStart_keeps_active:
  assumes "joyActive s"
  shows "joyActive (fst (handleTouchStart js s ts))"
  unfolding handleTouchStart_def
  using assms
  by (rule forOf_preserves [where P = joyActive, rotated]) (rule touchStartStep_keeps_active)

lemma example_attack_start:
  "handleTouchStart 140 exampleScreen [touchAt 2 750 290] =
     (exampleScreen\<lparr>buttonTouches := [2 \<mapsto> Attack], pressedButtons := {Attack}\<rparr>,
      [ButtonPress Attack])"
  by (simp add: handleTouchStart_def touchStartStep_def hit_test_eval Let_def example_defs
      del: hitTestButtonsFrom.simps(2))

text \<open>
  Claim C2. Let a begin batch be processed up to a touch \<open>t\<close>, leaving the state
  \<open>s1\<close> after the calls \<open>e1\<close>. If the joystick has no touch in \<open>s1\<close> and \<open>t\<close> lies
  within the joystick's hit circle (its distance from the joystick centre is at most the
  radius \<open>joystickSize / 2\<close>), then the step for \<open>t\<close> makes \<open>t\<close> the joystick's touch,
  sets \<open>joyActive\<close>, and calls \<open>onJoystickMove\<close> once with the update computed from the
  position of \<open>t\<close>; that call is part of the calls of the same batch, after those of the
  earlier touches, and at the end of the batch \<open>t\<close> is still the joystick's touch and the
  joystick is active.
\<close>

theorem joystick_binds_on_begin:
  assumes "handleTouchStart js s pre = (s1, e1)"
    and "joystickTouchId s1 = None"
    and "in_circle (joystickCenter js s1) (js / 2) (pageX t) (pageY t)"
  shows "touchStartStep js s1 t =
           (s1\<lparr>joystickTouchId := Some (touch_identifier t), joyActive := True,
               joyPos := joyPos (fst (moveJoystickWithTouch js s1 (pageX t) (pageY t)))\<rparr>,
            [JoystickMove (spec_joystick_update (fst (joystickOffset js s1 t))
                (snd (joystickOffset js s1 t)) (maxDistance js))]) \<and>
         dispatch js s (TouchStart (pre @ t # post)) =
           (fst (handleTouchStart js (fst (touchStartStep js s1 t)) post),
            e1 @ snd (touchStartStep js s1 t) @
              snd (handleTouchStart js (fst (touchStartStep js s1 t)) post)) \<and>
         joystickTouchId (fst (dispatch js s (TouchStart (pre @ t # post)))) =
           Some (touch_identifier t) \<and>
         joyActive (fst (dispatch js s (TouchStart (pre @ t # post))))"
proof -
  let ?s2 = "fst (touchStartStep js s1 t)"
  have hit: "hitTestJoystick js s1 (pageX t) (pageY t)"
    using assms(3) by (simp add: in_circle_joystick)
  note step = touchStartStep_joystick [OF assms(2) hit]
  have batch: "dispatch js s (TouchStart (pre @ t # post)) =
      (fst (handleTouchStart js ?s2 post),
       e1 @ snd (touchStartStep js s1 t) @ snd (handleTouchStart js ?s2 post))"
    using assms(1)
    by (simp add: handleTouchStart_def forOf_append split_beta Let_def)
  have "joystickTouchId ?s2 = Some (touch_identifier t)" "joyActive ?s2"
    by (simp_all add: step)
  then have "joystickTouchId (fst (handleTouchStart js ?s2 post)) = Some (touch_identifier t)"
    "joyActive (fst (handleTouchStart js ?s2 post))"
    by (simp_all add: handleTouchStart_keeps_joystick handleTouchStart_keeps_active)
  with step batch show ?thesis
    by (simp del: dispatch.simps)
qed

theorem joystick_binds_on_begin_witness:
  "handleTouchStart 140 exampleScreen [touchAt 2 750 290] =
     (exampleScreen\<lparr>buttonTouches := [2 \<mapsto> Attack], pressedButtons := {Attack}\<rparr>,
      [ButtonPress Attack]) \<and>
   joystickTouchId (exampleScreen\<lparr>buttonTouches := [2 \<mapsto> Attack], pressedButtons := {Attack}\<rparr>) = None \<and>
   in_circle (joystickCenter 140
       (exampleScreen\<lparr>buttonTouches := [2 \<mapsto> Attack], pressedButtons := {Attack}\<rparr>)) (140 / 2)
     (pageX (touchAt 1 100 290)) (pageY (touchAt 1 100 290)) \<and>
   joystickTouchId (fst (dispatch 140 exampleScreen
     (TouchStart ([touchAt 2 750 290] @ touchAt 1 100 290 # [touchAt 3 100 290])))) = Some 1 \<and>
   joyActive (fst (dispatch 140 exampleScreen
     (TouchStart ([touchAt 2 750 290] @ touchAt 1 100 290 # [touchAt 3 100 290]))))"
proof -
  let ?s1 = "exampleScreen\<lparr>buttonTouches := [2 \<mapsto> Attack], pressedButtons := {Attack}\<rparr>"
  have 2: "joystickTouchId ?s1 = None"
    by (simp add: example_defs)
  have 3: "in_circle (joystickCenter 140 ?s1) (140 / 2)
     (pageX (touchAt 1 100 290)) (pageY (touchAt 1 100 290))"
    by (simp add: in_circle_def joystickCenter_def joystickLeft_def joystickBottom_def example_defs)
  from joystick_binds_on_begin [OF example_attack_start 2 3, of "[touchAt 3 100 290]"]
  have "joystickTouchId (fst (dispatch 140 exampleScreen
     (TouchStart ([touchAt 2 750 290] @ touchAt 1 100 290 # [touchAt 3 100 290])))) =
       Some (touch_identifier (touchAt 1 100 290)) \<and>
   joyActive (fst (dispatch 140 exampleScreen
     (TouchStart ([touchAt 2 750 290] @ touchAt 1 100 290 # [touchAt 3 100 290]))))"
    by blast
  then have "joystickTouchId (fst (dispatch 140 exampleScreen
     (TouchStart ([touchAt 2 750 290] @ touchAt 1 100 290 # [touchAt 3 100 290])))) = Some 1 \<and>
   joyActive (fst (dispatch 140 exampleScreen
     (TouchStart ([touchAt 2 750 290] @ touchAt 1 100 290 # [touchAt 3 100 290]))))"
    by (simp add: touchAt_def del: dispatch.simps)
  with example_attack_start 2 3 show ?thesis
    by blast
qed

text \<open>
  Claim C10. Let \<open>40 < joystickSize\<close>. A touch that begins exactly at the joystick centre
  while the joystick has no touch is bound to the joystick, and the update emitted at once
  is \<open>{x: 0, y: 0, angle: 0, distance: 0}\<close>; the angle is 0 because
  \<open>atan2 0 0 = 0\<close>.
\<close>

theorem begin_at_joystick_center:
  assumes "40 < js"
    and "joystickTouchId s = None"
    and "pageX t = fst (joystickCenter js s)"
    and "pageY t = snd (joystickCenter js s)"
  shows "dispatch js s (TouchStart [t]) =
           (s\<lparr>joystickTouchId := Some (touch_identifier t), joyActive := True, joyPos := (0, 0)\<rparr>,
            [JoystickMove \<lparr>jd_x = 0, jd_y = 0, jd_angle = 0, jd_distance = 0\<rparr>]) \<and>
         atan2 0 0 = 0"
proof -
  have hit: "hitTestJoystick js s (pageX t) (pageY t)"
    using assms by (simp add: hitTestJoystick_def)
  have m: "0 < maxDistance js"
    using assms(1) by (simp add: maxDistance_def)
  have o: "joystickOffset js s t = (0, 0)"
    using assms by (simp add: joystickOffset_def)
  have u: "spec_joystick_update 0 0 (maxDistance js) =
      \<lparr>jd_x = 0, jd_y = 0, jd_angle = 0, jd_distance = 0\<rparr>"
    by (simp add: spec_joystick_update_def clamp_def in_degrees_def spec_mod_def)
  have p: "joyPos (fst (moveJoystickWithTouch js s (pageX t) (pageY t))) = (0, 0)"
    using assms m by (simp add: moveJoystickWithTouch_def Let_def)
  show ?thesis
    using touchStartStep_joystick [OF assms(2) hit]
    by (simp add: handleTouchStart_def o u p)
qed

theorem begin_at_joystick_center_witness:
  "(40::real) < 140 \<and> joystickTouchId exampleScreen = None \<and>
   pageX (touchAt 1 100 290) = fst (joystickCenter 140 exampleScreen) \<and>
   pageY (touchAt 1 100 290) = snd (joystickCenter 140 exampleScreen) \<and>
   dispatch 140 exampleScreen (TouchStart [touchAt 1 100 290]) =
     (exampleScreen\<lparr>joystickTouchId := Some 1, joyActive := True, joyPos := (0, 0)\<rparr>,
      [JoystickMove \<lparr>jd_x = 0, jd_y = 0, jd_angle = 0, jd_distance = 0\<rparr>])"
proof -
  have 1: "(40::real) < 140" by simp
  have 2: "joystickTouchId exampleScreen = None"
    by (simp add: example_defs)
  have 3: "pageX (touchAt 1 100 290) = fst (joystickCenter 140 exampleScreen)"
    by (simp add: joystickCenter_def joystickLeft_def example_defs)
  have 4: "pageY (touchAt 1 100 290) = snd (joystickCenter 140 exampleScreen)"
    by (simp add: joystickCenter_def joystickBottom_def example_defs)
  from begin_at_joystick_center [OF 1 2 3 4]
  have "dispatch 140 exampleScreen (TouchStart [touchAt 1 100 290]) =
     (exampleScreen\<lparr>joystickTouchId := Some (touch_identifier (touchAt 1 100 290)),
        joyActive := True, joyPos := (0, 0)\<rparr>,
      [JoystickMove \<lparr>jd_x = 0, jd_y = 0, jd_angle = 0, jd_distance = 0\<rparr>])"
    by blast
  then have "dispatch 140 exampleScreen (TouchStart [touchAt 1 100 290]) =
     (exampleScreen\<lparr>joystickTouchId := Some 1, joyActive := True, joyPos := (0, 0)\<rparr>,
      [JoystickMove \<lparr>jd_x = 0, jd_y = 0, jd_angle = 0, jd_distance = 0\<rparr>])"
    by (simp add: touchAt_def del: dispatch.simps)
  with 1 2 3 4 show ?thesis by blast
qed

section \<open>Clamping the knob\<close>


lemma offset_length_pos:
  assumes "x \<noteq> 0 \<or> y \<noteq> 0"
  shows "0 < offset_length x y"
  using assms unfolding offset_length_def
  by (auto simp: sum_power2_gt_zero_iff)









section \<open>Release on end and cancel\<close>

lemma first_touch_of_id:
  assumes "t \<in> set ts"
  obtains pre u post where "ts = pre @ u # post" "touch_identifier u = touch_identifier t"
    "\<forall>v \<in> set pre. touch_identifier v \<noteq> touch_identifier t"
proof -
  from assms have "\<exists>u \<in> set ts. touch_identifier u = touch_identifier t" by blast
  from split_list_first_prop [OF this] show ?thesis
    using that by blast
qed

lemma forOf_step_events:
  "set (snd (body (fst (forOf body s pre)) u)) \<subseteq> set (snd (forOf body s (pre @ u # post)))"
  by (auto simp: forOf_append split_beta Let_def)

lemma forOf_split_state:
  "fst (forOf body s (pre @ u # post)) =
     fst (forOf body (fst (body (fst (forOf body s pre)) u)) post)"
  by (simp add: forOf_append split_beta Let_def)

lemma touchEndStep_captured:
  assumes "joystickTouchId s \<noteq> None \<longrightarrow> a"
  shows "joystickTouchId (fst (touchEndStep a s t)) \<noteq> None \<longrightarrow> a"
  using assms
  by (auto simp: touchEndStep_def releaseJoystick_def Let_def split: option.splits if_splits)

lemma touchEndStep_unbinds:
  assumes "joystickTouchId s \<noteq> None \<longrightarrow> a"
  shows "unbound (fst (touchEndStep a s t)) (touch_identifier t)"
  using assms
  by (auto simp: touchEndStep_def releaseJoystick_def Let_def unbound_def split: option.splits)

lemma touchEndStep_stays_unbound:
  assumes "unbound s i"
  shows "unbound (fst (touchEndStep a s t)) i"
  using assms touchEndStep_bound_to_back [of a s t i]
  by (auto simp: unbound_iff)

lemma touchEndStep_released:
  assumes "joystickTouchId s = None \<and> \<not> joyActive s \<and> joyPos s = (0, 0)"
  shows "joystickTouchId (fst (touchEndStep a s t)) = None \<and>
         \<not> joyActive (fst (touchEndStep a s t)) \<and> joyPos (fst (touchEndStep a s t)) = (0, 0)"
  using assms
  by (auto simp: touchEndStep_def Let_def split: option.splits)

lemma touchEndStep_not_pressed:
  assumes "b \<notin> pressedButtons s"
  shows "b \<notin> pressedButtons (fst (touchEndStep a s t))"
  using assms
  by (auto simp: touchEndStep_def releaseJoystick_def Let_def split: option.splits if_splits)

lemma touchEndStep_joystick:
  assumes "joystickTouchId s = Some (touch_identifier t)" "a"
  shows "joystickTouchId (fst (touchEndStep a s t)) = None \<and>
         \<not> joyActive (fst (touchEndStep a s t)) \<and> joyPos (fst (touchEndStep a s t)) = (0, 0) \<and>
         JoystickRelease \<in> set (snd (touchEndStep a s t))"
  using assms
  by (auto simp: touchEndStep_def releaseJoystick_def Let_def split: option.splits)

lemma touchEndStep_button:
  assumes "buttonTouches s (touch_identifier t) = Some b"
  shows "b \<notin> pressedButtons (fst (touchEndStep a s t)) \<and>
         ButtonRelease b \<in> set (snd (touchEndStep a s t))"
  using assms
  by (auto simp: touchEndStep_def releaseJoystick_def Let_def split: option.splits)

lemma forOf_touchEndStep_other:
  assumes "\<forall>v \<in> set pre. touch_identifier v \<noteq> i"
  shows "bound_to (fst (forOf (touchEndStep a) s pre)) i c = bound_to s i c"
  using assms by (intro forOf_bound_to touchEndStep_bound_to_other) blast

lemma forOf_touchEndStep_captured:
  assumes "joystickTouchId s \<noteq> None \<longrightarrow> a"
  shows "joystickTouchId (fst (forOf (touchEndStep a) s ts)) \<noteq> None \<longrightarrow> a"
  using assms
  by (rule forOf_preserves [where P = "\<lambda>u. joystickTouchId u \<noteq> None \<longrightarrow> a", rotated])
    (rule touchEndStep_captured)

lemma handleTouchEnd_unbinds:
  assumes "joyActive s = (joystickTouchId s \<noteq> None)" "t \<in> set ts"
  shows "unbound (fst (handleTouchEnd s ts)) (touch_identifier t)"
proof -
  let ?a = "joyActive s"
  from assms(2) obtain pre post where ts: "ts = pre @ t # post"
    by (auto dest: split_list)
  let ?s1 = "fst (forOf (touchEndStep ?a) s pre)"
  let ?s2 = "fst (touchEndStep ?a ?s1 t)"
  have "joystickTouchId s \<noteq> None \<longrightarrow> ?a"
    using assms(1) by blast
  then have "joystickTouchId ?s1 \<noteq> None \<longrightarrow> ?a"
    by (rule forOf_touchEndStep_captured)
  then have "unbound ?s2 (touch_identifier t)"
    by (rule touchEndStep_unbinds)
  then have "unbound (fst (forOf (touchEndStep ?a) ?s2 post)) (touch_identifier t)"
    by (rule forOf_preserves [where P = "\<lambda>u. unbound u (touch_identifier t)", rotated])
      (rule touchEndStep_stays_unbound)
  then show ?thesis
    by (simp add: handleTouchEnd_def ts forOf_split_state)
qed

lemma handleTouchEnd_joystick:
  assumes "joyActive s = (joystickTouchId s \<noteq> None)" "t \<in> set ts"
    and "joystickTouchId s = Some (touch_identifier t)"
  shows "joystickTouchId (fst (handleTouchEnd s ts)) = None \<and>
         \<not> joyActive (fst (handleTouchEnd s ts)) \<and>
         joyPos (fst (handleTouchEnd s ts)) = (0, 0) \<and>
         JoystickRelease \<in> set (snd (handleTouchEnd s ts))"
proof -
  let ?a = "joyActive s"
  from assms(2) obtain pre u post where ts: "ts = pre @ u # post"
    and u: "touch_identifier u = touch_identifier t"
    and pre: "\<forall>v \<in> set pre. touch_identifier v \<noteq> touch_identifier t"
    by (rule first_touch_of_id)
  let ?s1 = "fst (forOf (touchEndStep ?a) s pre)"
  let ?s2 = "fst (touchEndStep ?a ?s1 u)"
  have a: "?a" using assms(1,3) by simp
  have "bound_to ?s1 (touch_identifier t) Joystick = bound_to s (touch_identifier t) Joystick"
    using pre by (rule forOf_touchEndStep_other)
  with assms(3) u have "joystickTouchId ?s1 = Some (touch_identifier u)" by simp
  from touchEndStep_joystick [OF this a]
  have rel: "joystickTouchId ?s2 = None \<and> \<not> joyActive ?s2 \<and> joyPos ?s2 = (0, 0)"
    and ev: "JoystickRelease \<in> set (snd (touchEndStep ?a ?s1 u))"
    by blast+
  from rel have "joystickTouchId (fst (forOf (touchEndStep ?a) ?s2 post)) = None \<and>
         \<not> joyActive (fst (forOf (touchEndStep ?a) ?s2 post)) \<and>
         joyPos (fst (forOf (touchEndStep ?a) ?s2 post)) = (0, 0)"
    by (rule forOf_preserves
        [where P = "\<lambda>u. joystickTouchId u = None \<and> \<not> joyActive u \<and> joyPos u = (0, 0)", rotated])
      (rule touchEndStep_released)
  moreover from ev have "JoystickRelease \<in> set (snd (forOf (touchEndStep ?a) s (pre @ u # post)))"
    using forOf_step_events by blast
  ultimately show ?thesis
    by (simp add: handleTouchEnd_def ts forOf_split_state)
qed

lemma handleTouchEnd_button:
  assumes "t \<in> set ts" "buttonTouches s (touch_identifier t) = Some b"
  shows "b \<notin> pressedButtons (fst (handleTouchEnd s ts)) \<and>
         ButtonRelease b \<in> set (snd (handleTouchEnd s ts))"
proof -
  let ?a = "joyActive s"
  from assms(1) obtain pre u post where ts: "ts = pre @ u # post"
    and u: "touch_identifier u = touch_identifier t"
    and pre: "\<forall>v \<in> set pre. touch_identifier v \<noteq> touch_identifier t"
    by (rule first_touch_of_id)
  let ?s1 = "fst (forOf (touchEndStep ?a) s pre)"
  let ?s2 = "fst (touchEndStep ?a ?s1 u)"
  have "bound_to ?s1 (touch_identifier t) (Button b) = bound_to s (touch_identifier t) (Button b)"
    using pre by (rule forOf_touchEndStep_other)
  with assms(2) u have "buttonTouches ?s1 (touch_identifier u) = Some b" by simp
  from touchEndStep_button [OF this, of ?a]
  have np: "b \<notin> pressedButtons ?s2"
    and ev: "ButtonRelease b \<in> set (snd (touchEndStep ?a ?s1 u))"
    by blast+
  from np have "b \<notin> pressedButtons (fst (forOf (touchEndStep ?a) ?s2 post))"
    by (rule forOf_preserves [where P = "\<lambda>u. b \<notin> pressedButtons u", rotated])
      (rule touchEndStep_not_pressed)
  moreover from ev have "ButtonRelease b \<in> set (snd (forOf (touchEndStep ?a) s (pre @ u # post)))"
    using forOf_step_events by blast
  ultimately show ?thesis
    by (simp add: handleTouchEnd_def ts forOf_split_state)
qed

lemma example_both_start:
  "fst (dispatch 140 exampleScreen (TouchStart [touchAt 1 100 290, touchAt 2 670 230])) =
     exampleScreen\<lparr>joystickTouchId := Some 1, joyActive := True, joyPos := (0, 0),
       buttonTouches := [2 \<mapsto> Jump], pressedButtons := {Jump}\<rparr>"
  by (simp add: handleTouchStart_def touchStartStep_def hit_test_eval
      startJoystickWithTouch_def moveJoystickWithTouch_def joystickCenter_def joystickLeft_def
      joystickBottom_def maxDistance_def Let_def example_defs
      del: hitTestButtonsFrom.simps(2))

lemma example_both_reachable:
  "reachable 140 (exampleScreen\<lparr>joystickTouchId := Some 1, joyActive := True, joyPos := (0, 0),
       buttonTouches := [2 \<mapsto> Jump], pressedButtons := {Jump}\<rparr>)"
proof -
  have w: "well_formed exampleScreen (TouchStart [touchAt 1 100 290, touchAt 2 670 230])"
    by (simp add: unbound_def example_defs)
  have "reachable 140 exampleScreen"
    unfolding exampleScreen_def by (rule reachable_init)
  then have "reachable 140 (fst (dispatch 140 exampleScreen
      (TouchStart [touchAt 1 100 290, touchAt 2 670 230])))"
    using w by (rule reachable_step)
  then show ?thesis
    by (simp only: example_both_start)
qed

text \<open>
  Claim C6. In a state reached by well-formed batches, a cancel batch does exactly what the
  end batch of the same touches does, and after it none of its touches is bound. If a touch
  of the batch was the joystick's touch, then afterwards the joystick has no touch, is not
  active, its knob offset is \<open>(0, 0)\<close> and \<open>onJoystickRelease\<close> has been called; if it
  was bound to a button, that button is no longer pressed and \<open>onButtonRelease\<close> has been
  called with that button.
\<close>

theorem release_on_end:
  assumes "reachable js s"
  shows "dispatch js s (TouchCancel ts) = dispatch js s (TouchEnd ts) \<and>
         (\<forall>t \<in> set ts.
            unbound (fst (dispatch js s (TouchEnd ts))) (touch_identifier t) \<and>
            (bound_to s (touch_identifier t) Joystick \<longrightarrow>
               joystickTouchId (fst (dispatch js s (TouchEnd ts))) = None \<and>
               \<not> joyActive (fst (dispatch js s (TouchEnd ts))) \<and>
               joyPos (fst (dispatch js s (TouchEnd ts))) = (0, 0) \<and>
               JoystickRelease \<in> set (snd (dispatch js s (TouchEnd ts)))) \<and>
            (\<forall>b. bound_to s (touch_identifier t) (Button b) \<longrightarrow>
               b \<notin> pressedButtons (fst (dispatch js s (TouchEnd ts))) \<and>
               ButtonRelease b \<in> set (snd (dispatch js s (TouchEnd ts)))))"
proof -
  note act = reachable_active [OF assms]
  show ?thesis
    using handleTouchEnd_unbinds [OF act] handleTouchEnd_joystick [OF act]
      handleTouchEnd_button [of _ ts s]
    by (auto simp del: not_None_eq)
qed

theorem release_on_end_witness:
  "reachable 140 (exampleScreen\<lparr>joystickTouchId := Some 1, joyActive := True, joyPos := (0, 0),
       buttonTouches := [2 \<mapsto> Jump], pressedButtons := {Jump}\<rparr>) \<and>
   unbound (fst (dispatch 140 (exampleScreen\<lparr>joystickTouchId := Some 1, joyActive := True,
       joyPos := (0, 0), buttonTouches := [2 \<mapsto> Jump], pressedButtons := {Jump}\<rparr>)
     (TouchCancel [touchAt 1 120 300, touchAt 2 670 230]))) 1 \<and>
   unbound (fst (dispatch 140 (exampleScreen\<lparr>joystickTouchId := Some 1, joyActive := True,
       joyPos := (0, 0), buttonTouches := [2 \<mapsto> Jump], pressedButtons := {Jump}\<rparr>)
     (TouchCancel [touchAt 1 120 300, touchAt 2 670 230]))) 2 \<and>
   \<not> joyActive (fst (dispatch 140 (exampleScreen\<lparr>joystickTouchId := Some 1, joyActive := True,
       joyPos := (0, 0), buttonTouches := [2 \<mapsto> Jump], pressedButtons := {Jump}\<rparr>)
     (TouchCancel [touchAt 1 120 300, touchAt 2 670 230]))) \<and>
   JoystickRelease \<in> set (snd (dispatch 140 (exampleScreen\<lparr>joystickTouchId := Some 1,
       joyActive := True, joyPos := (0, 0), buttonTouches := [2 \<mapsto> Jump],
       pressedButtons := {Jump}\<rparr>)
     (TouchCancel [touchAt 1 120 300, touchAt 2 670 230]))) \<and>
   ButtonRelease Jump \<in> set (snd (dispatch 140 (exampleScreen\<lparr>joystickTouchId := Some 1,
       joyActive := True, joyPos := (0, 0), buttonTouches := [2 \<mapsto> Jump],
       pressedButtons := {Jump}\<rparr>)
     (TouchCancel [touchAt 1 120 300, touchAt 2 670 230])))"
proof -
  let ?s = "exampleScreen\<lparr>joystickTouchId := Some 1, joyActive := True, joyPos := (0, 0),
       buttonTouches := [2 \<mapsto> Jump], pressedButtons := {Jump}\<rparr>"
  let ?ts = "[touchAt 1 120 300, touchAt 2 670 230]"
  note r = example_both_reachable
  note th = release_on_end [OF r, of ?ts]
  from th have c: "dispatch 140 ?s (TouchCancel ?ts) = dispatch 140 ?s (TouchEnd ?ts)"
    by blast
  have j: "bound_to ?s (touch_identifier (touchAt 1 120 300)) Joystick"
    by (simp add: touchAt_def)
  have b: "bound_to ?s (touch_identifier (touchAt 2 670 230)) (Button Jump)"
    by (simp add: touchAt_def)
  from th have 1: "unbound (fst (dispatch 140 ?s (TouchEnd ?ts))) (touch_identifier (touchAt 1 120 300)) \<and>
      (bound_to ?s (touch_identifier (touchAt 1 120 300)) Joystick \<longrightarrow>
         joystickTouchId (fst (dispatch 140 ?s (TouchEnd ?ts))) = None \<and>
         \<not> joyActive (fst (dispatch 140 ?s (TouchEnd ?ts))) \<and>
         joyPos (fst (dispatch 140 ?s (TouchEnd ?ts))) = (0, 0) \<and>
         JoystickRelease \<in> set (snd (dispatch 140 ?s (TouchEnd ?ts))))"
    by (simp del: dispatch.simps bound_to.simps)
  from th have 2: "unbound (fst (dispatch 140 ?s (TouchEnd ?ts))) (touch_identifier (touchAt 2 670 230)) \<and>
      (bound_to ?s (touch_identifier (touchAt 2 670 230)) (Button Jump) \<longrightarrow>
         Jump \<notin> pressedButtons (fst (dispatch 140 ?s (TouchEnd ?ts))) \<and>
         ButtonRelease Jump \<in> set (snd (dispatch 140 ?s (TouchEnd ?ts))))"
    by (simp del: dispatch.simps bound_to.simps)
  have i: "touch_identifier (touchAt 1 120 300) = 1" "touch_identifier (touchAt 2 670 230) = 2"
    by (simp_all add: touchAt_def)
  from 1 2 j b show ?thesis
    unfolding c i using r by blast
qed

section \<open>No reclassification\<close>

text \<open>
  Claim C7. Take any sequence of batches in which touch \<open>i\<close> does not begin again, that
  is, any part of the lifetime of \<open>i\<close> after its begin. Every control that \<open>i\<close> is
  bound to afterwards is one it was bound to before: a touch never passes from one control
  to another, and an unclaimed touch is never claimed later. If the sequence has no end or
  cancel of \<open>i\<close> either, the binding of \<open>i\<close> is exactly what it was. A move batch, wherever
  its touches are, changes no binding.
\<close>

theorem no_reclassification:
  assumes "\<forall>b \<in> set bs. \<not> begins b i"
  shows "(\<forall>c. bound_to (run js s bs) i c \<longrightarrow> bound_to s i c) \<and>
         ((\<forall>b \<in> set bs. \<not> ends b i) \<longrightarrow> (\<forall>c. bound_to (run js s bs) i c = bound_to s i c)) \<and>
         (\<forall>ts c. bound_to (fst (dispatch js s (TouchMove ts))) i c = bound_to s i c)"
proof (intro conjI allI impI)
  fix c
  assume "bound_to (run js s bs) i c"
  with assms show "bound_to s i c" by (rule run_bound_to_back)
next
  fix c
  assume "\<forall>b \<in> set bs. \<not> ends b i"
  with assms have "\<forall>b \<in> set bs. \<not> begins b i \<and> \<not> ends b i" by blast
  then show "bound_to (run js s bs) i c = bound_to s i c" by (rule run_bound_to_same)
next
  fix ts c
  show "bound_to (fst (dispatch js s (TouchMove ts))) i c = bound_to s i c"
    by (rule dispatch_bound_to_same) simp_all
qed

theorem no_reclassification_witness:
  "\<not> begins (TouchMove [touchAt 1 750 290]) 1 \<and>
   \<not> begins (TouchStart [touchAt 2 750 290]) 1 \<and>
   \<not> begins (Layout 1000 500) 1 \<and>
   \<not> begins (TouchEnd [touchAt 2 750 290]) 1 \<and>
   bound_to (exampleScreen\<lparr>joystickTouchId := Some 1, joyActive := True\<rparr>) 1 Joystick \<and>
   bound_to (run 140 (exampleScreen\<lparr>joystickTouchId := Some 1, joyActive := True\<rparr>)
     [TouchMove [touchAt 1 750 290], TouchStart [touchAt 2 750 290], Layout 1000 500,
      TouchEnd [touchAt 2 750 290]]) 1 Joystick \<and>
   \<not> bound_to (run 140 (exampleScreen\<lparr>joystickTouchId := Some 1, joyActive := True\<rparr>)
     [TouchMove [touchAt 1 750 290], TouchStart [touchAt 2 750 290], Layout 1000 500,
      TouchEnd [touchAt 2 750 290]]) 1 (Button Attack)"
proof -
  let ?s = "exampleScreen\<lparr>joystickTouchId := Some 1, joyActive := True\<rparr>"
  let ?bs = "[TouchMove [touchAt 1 750 290], TouchStart [touchAt 2 750 290], Layout 1000 500,
      TouchEnd [touchAt 2 750 290]]"
  have b: "\<not> begins (TouchMove [touchAt 1 750 290]) 1" "\<not> begins (TouchStart [touchAt 2 750 290]) 1"
    "\<not> begins (Layout 1000 500) 1" "\<not> begins (TouchEnd [touchAt 2 750 290]) 1"
    by (simp_all add: touchAt_def)
  then have h: "\<forall>b \<in> set ?bs. \<not> begins b 1" by simp
  have e: "\<forall>b \<in> set ?bs. \<not> ends b 1" by (simp add: touchAt_def)
  from no_reclassification [OF h, of 140 ?s] e
  have same: "\<And>c. bound_to (run 140 ?s ?bs) 1 c = bound_to ?s 1 c" by blast
  have j: "bound_to ?s 1 Joystick" by simp
  have n: "\<not> bound_to ?s 1 (Button Attack)" by (simp add: example_defs)
  show ?thesis
    using b j n unfolding same by blast
qed

section \<open>The hit tests and touches that hit nothing\<close>

lemma hitTestButtonsFrom_find:
  "hitTestButtonsFrom s x y bs =
     map_option b_type
       (find (\<lambda>b. offset_length (x - fst (getButtonCenter s b)) (y - snd (getButtonCenter s b))
                 \<le> buttonRadius) bs)"
  by (induction bs) (simp_all add: Let_def offset_length_def power2_eq_square)

lemma handleTouchStart_unbound_others:
  assumes "unbound s i" "\<forall>u \<in> set ts. touch_identifier u \<noteq> i"
  shows "unbound (fst (handleTouchStart js s ts)) i"
  unfolding handleTouchStart_def
  by (rule forOf_preserves [where P = "\<lambda>u. unbound u i"])
    (use assms in \<open>simp_all add: touchStartStep_unbound_other\<close>)

lemma run_unbound:
  assumes "unbound s i" "\<forall>b \<in> set bs. \<not> begins b i"
  shows "unbound (run js s bs) i"
  using assms run_bound_to_back [of bs i js s]
  by (auto simp: unbound_iff)

lemma unbound_noop:
  assumes "unbound s (touch_identifier u)"
  shows "dispatch js s (TouchMove [u]) = (s, []) \<and>
         dispatch js s (TouchEnd [u]) = (s, []) \<and>
         dispatch js s (TouchCancel [u]) = (s, [])"
  using assms
  by (simp add: handleTouchMove_def handleTouchEnd_def touchMoveStep_unbound touchEndStep_unbound)

lemma inert_after_miss:
  assumes "distinct (map touch_identifier (pre @ t # post))"
    and "unbound s (touch_identifier t)"
    and "\<not> (joystickTouchId (fst (handleTouchStart js s pre)) = None \<and>
            hitTestJoystick js (fst (handleTouchStart js s pre)) (pageX t) (pageY t))"
    and "hitTestButtons (fst (handleTouchStart js s pre)) (pageX t) (pageY t) = None"
    and "\<forall>b \<in> set bs. \<not> begins b (touch_identifier t)"
  shows "unbound (run js s (TouchStart (pre @ t # post) # bs)) (touch_identifier t)"
proof -
  let ?i = "touch_identifier t"
  let ?s1 = "fst (handleTouchStart js s pre)"
  have pre: "\<forall>u \<in> set pre. touch_identifier u \<noteq> ?i"
    and post: "\<forall>u \<in> set post. touch_identifier u \<noteq> ?i"
    using assms(1) by (auto simp: image_iff)
  have u1: "unbound ?s1 ?i"
    using assms(2) pre by (rule handleTouchStart_unbound_others)
  have step: "touchStartStep js ?s1 t = (?s1, [])"
    using assms(3,4) by (auto simp: touchStartStep_def Let_def)
  have "fst (handleTouchStart js s (pre @ t # post)) = fst (handleTouchStart js ?s1 post)"
    by (simp add: handleTouchStart_def forOf_split_state step [unfolded handleTouchStart_def])
  moreover have "unbound (fst (handleTouchStart js ?s1 post)) ?i"
    using u1 post by (rule handleTouchStart_unbound_others)
  ultimately have "unbound (fst (dispatch js s (TouchStart (pre @ t # post)))) ?i"
    by simp
  then have "unbound (run js (fst (dispatch js s (TouchStart (pre @ t # post)))) bs) ?i"
    using assms(5) by (rule run_unbound)
  then show ?thesis by simp
qed

lemma touchStartStep_pressed_mono:
  assumes "b \<in> pressedButtons s"
  shows "b \<in> pressedButtons (fst (touchStartStep js s t))"
  using assms by (cases rule: touchStartStep_cases [of s js t]) auto

lemma handleTouchStart_pressed_mono:
  assumes "b \<in> pressedButtons s"
  shows "b \<in> pressedButtons (fst (handleTouchStart js s ts))"
  unfolding handleTouchStart_def
  using assms
  by (rule forOf_preserves [where P = "\<lambda>u. b \<in> pressedButtons u", rotated])
    (rule touchStartStep_pressed_mono)

lemma handleTouchStart_bound_to_others:
  assumes "\<forall>u \<in> set ts. touch_identifier u \<noteq> i"
  shows "bound_to (fst (handleTouchStart js s ts)) i c = bound_to s i c"
  unfolding handleTouchStart_def
  using assms by (intro forOf_bound_to touchStartStep_bound_to) blast

lemma handleTouchStart_split:
  "handleTouchStart js s (pre @ t # post) =
     (fst (handleTouchStart js (fst (touchStartStep js (fst (handleTouchStart js s pre)) t)) post),
      snd (handleTouchStart js s pre) @
      snd (touchStartStep js (fst (handleTouchStart js s pre)) t) @
      snd (handleTouchStart js (fst (touchStartStep js (fst (handleTouchStart js s pre)) t)) post))"
  by (simp add: handleTouchStart_def forOf_append split_beta Let_def)

lemma button_bound_in_batch:
  assumes "\<not> (joystickTouchId (fst (handleTouchStart js s pre)) = None \<and>
            hitTestJoystick js (fst (handleTouchStart js s pre)) (pageX t) (pageY t))"
    and "hitTestButtons (fst (handleTouchStart js s pre)) (pageX t) (pageY t) = Some btn"
  shows "dispatch js s (TouchStart (pre @ t # post)) =
           (fst (handleTouchStart js
              ((fst (handleTouchStart js s pre))
                 \<lparr>buttonTouches :=
                    (buttonTouches (fst (handleTouchStart js s pre)))(touch_identifier t \<mapsto> btn),
                  pressedButtons := insert btn (pressedButtons (fst (handleTouchStart js s pre)))\<rparr>)
              post),
            snd (handleTouchStart js s pre) @ [ButtonPress btn] @
            snd (handleTouchStart js
              ((fst (handleTouchStart js s pre))
                 \<lparr>buttonTouches :=
                    (buttonTouches (fst (handleTouchStart js s pre)))(touch_identifier t \<mapsto> btn),
                  pressedButtons := insert btn (pressedButtons (fst (handleTouchStart js s pre)))\<rparr>)
              post))"
    and "distinct (map touch_identifier (pre @ t # post)) \<longrightarrow>
           bound_to (fst (dispatch js s (TouchStart (pre @ t # post)))) (touch_identifier t) (Button btn)"
    and "btn \<in> pressedButtons (fst (dispatch js s (TouchStart (pre @ t # post))))"
proof -
  let ?s1 = "fst (handleTouchStart js s pre)"
  let ?s2 = "?s1\<lparr>buttonTouches := (buttonTouches ?s1)(touch_identifier t \<mapsto> btn),
                  pressedButtons := insert btn (pressedButtons ?s1)\<rparr>"
  have step: "touchStartStep js ?s1 t = (?s2, [ButtonPress btn])"
    using assms by (auto simp: touchStartStep_def Let_def)
  show batch: "dispatch js s (TouchStart (pre @ t # post)) =
      (fst (handleTouchStart js ?s2 post),
       snd (handleTouchStart js s pre) @ [ButtonPress btn] @ snd (handleTouchStart js ?s2 post))"
    by (simp add: handleTouchStart_split step)
  have "btn \<in> pressedButtons ?s2" by simp
  then have "btn \<in> pressedButtons (fst (handleTouchStart js ?s2 post))"
    by (rule handleTouchStart_pressed_mono)
  then show "btn \<in> pressedButtons (fst (dispatch js s (TouchStart (pre @ t # post))))"
    by (simp only: batch fst_conv)
  show "distinct (map touch_identifier (pre @ t # post)) \<longrightarrow>
      bound_to (fst (dispatch js s (TouchStart (pre @ t # post)))) (touch_identifier t) (Button btn)"
  proof
    assume "distinct (map touch_identifier (pre @ t # post))"
    then have "\<forall>u \<in> set post. touch_identifier u \<noteq> touch_identifier t"
      by (auto simp: image_iff)
    then have "bound_to (fst (handleTouchStart js ?s2 post)) (touch_identifier t) (Button btn) =
        bound_to ?s2 (touch_identifier t) (Button btn)"
      by (rule handleTouchStart_bound_to_others)
    then have "bound_to (fst (handleTouchStart js ?s2 post)) (touch_identifier t) (Button btn)"
      by simp
    then show "bound_to (fst (dispatch js s (TouchStart (pre @ t # post)))) (touch_identifier t) (Button btn)"
      by (simp only: batch fst_conv)
  qed
qed

lemma example_joystick_start_events:
  "snd (handleTouchStart 140 exampleScreen [touchAt 1 100 290]) =
     [JoystickMove \<lparr>jd_x = 0, jd_y = 0, jd_angle = 0, jd_distance = 0\<rparr>]"
  by (simp add: handleTouchStart_def touchStartStep_def hitTestJoystick_squares
      startJoystickWithTouch_def moveJoystickWithTouch_events joystickCenter_def joystickLeft_def
      joystickBottom_def spec_joystick_update_def clamp_def in_degrees_def spec_mod_def
      Let_def example_defs)

text \<open>
  Claim C5. The joystick hit test holds exactly when the Euclidean distance of the position
  from the joystick centre is at most the radius \<open>joystickSize / 2\<close>, so the boundary is a
  hit. The buttons are declared in the order attack, dodge, jump, run, and
  \<open>hitTestButtons\<close> returns the first of them whose centre is at distance at most
  \<open>buttonRadius\<close>. A begin touch that does not claim the joystick is bound to that button,
  which is pressed and reported, or changes nothing when there is none. A touch that was
  unbound, begins in a batch of touches with distinct identifiers and hits neither the
  joystick nor a button is unbound after that batch and after any later batches in which it
  does not begin again, and a move, end or cancel of it there changes nothing and makes no
  call. A touch of a begin batch that does not claim the joystick and hits a button makes
  the begin handler call \<open>onButtonPress\<close> with that button, after the calls for the
  earlier touches of the batch; at the end of the batch the button is pressed and, the
  identifiers of the batch being distinct, the touch is bound to it.
\<close>

theorem hit_test_definition:
  "(hitTestJoystick js s x y \<longleftrightarrow>
      offset_length (x - fst (joystickCenter js s)) (y - snd (joystickCenter js s)) \<le> js / 2) \<and>
   map b_type buttons = [Attack, Dodge, Jump, Run] \<and>
   hitTestButtons s x y =
     map_option b_type
       (find (\<lambda>b. offset_length (x - fst (getButtonCenter s b)) (y - snd (getButtonCenter s b))
                 \<le> buttonRadius) buttons) \<and>
   (\<not> (joystickTouchId s = None \<and> hitTestJoystick js s (pageX t) (pageY t)) \<longrightarrow>
      touchStartStep js s t =
        (case hitTestButtons s (pageX t) (pageY t) of
           None \<Rightarrow> (s, [])
         | Some btn \<Rightarrow>
             (s\<lparr>buttonTouches := (buttonTouches s)(touch_identifier t \<mapsto> btn),
                pressedButtons := insert btn (pressedButtons s)\<rparr>,
              [ButtonPress btn]))) \<and>
   (distinct (map touch_identifier (pre @ t # post)) \<and>
    unbound s (touch_identifier t) \<and>
    \<not> (joystickTouchId (fst (handleTouchStart js s pre)) = None \<and>
       hitTestJoystick js (fst (handleTouchStart js s pre)) (pageX t) (pageY t)) \<and>
    hitTestButtons (fst (handleTouchStart js s pre)) (pageX t) (pageY t) = None \<and>
    (\<forall>b \<in> set bs. \<not> begins b (touch_identifier t)) \<longrightarrow>
      unbound (run js s (TouchStart (pre @ t # post) # bs)) (touch_identifier t) \<and>
      (\<forall>u. touch_identifier u = touch_identifier t \<longrightarrow>
         dispatch js (run js s (TouchStart (pre @ t # post) # bs)) (TouchMove [u]) =
           (run js s (TouchStart (pre @ t # post) # bs), []) \<and>
         dispatch js (run js s (TouchStart (pre @ t # post) # bs)) (TouchEnd [u]) =
           (run js s (TouchStart (pre @ t # post) # bs), []) \<and>
         dispatch js (run js s (TouchStart (pre @ t # post) # bs)) (TouchCancel [u]) =
           (run js s (TouchStart (pre @ t # post) # bs), []))) \<and>
   (\<not> (joystickTouchId (fst (handleTouchStart js s pre)) = None \<and>
       hitTestJoystick js (fst (handleTouchStart js s pre)) (pageX t) (pageY t)) \<and>
    hitTestButtons (fst (handleTouchStart js s pre)) (pageX t) (pageY t) = Some btn \<longrightarrow>
      dispatch js s (TouchStart (pre @ t # post)) =
        (fst (handleTouchStart js
           ((fst (handleTouchStart js s pre))
              \<lparr>buttonTouches :=
                 (buttonTouches (fst (handleTouchStart js s pre)))(touch_identifier t \<mapsto> btn),
               pressedButtons := insert btn (pressedButtons (fst (handleTouchStart js s pre)))\<rparr>)
           post),
         snd (handleTouchStart js s pre) @ [ButtonPress btn] @
         snd (handleTouchStart js
           ((fst (handleTouchStart js s pre))
              \<lparr>buttonTouches :=
                 (buttonTouches (fst (handleTouchStart js s pre)))(touch_identifier t \<mapsto> btn),
               pressedButtons := insert btn (pressedButtons (fst (handleTouchStart js s pre)))\<rparr>)
           post)) \<and>
      btn \<in> pressedButtons (fst (dispatch js s (TouchStart (pre @ t # post)))) \<and>
      (distinct (map touch_identifier (pre @ t # post)) \<longrightarrow>
         bound_to (fst (dispatch js s (TouchStart (pre @ t # post))))
           (touch_identifier t) (Button btn)))"
proof -
  have 1: "hitTestJoystick js s x y \<longleftrightarrow>
      offset_length (x - fst (joystickCenter js s)) (y - snd (joystickCenter js s)) \<le> js / 2"
    by (simp add: hitTestJoystick_def Let_def offset_length_def power2_eq_square)
  have 2: "map b_type buttons = [Attack, Dodge, Jump, Run]"
    by (simp add: buttons_def)
  have 3: "hitTestButtons s x y =
     map_option b_type
       (find (\<lambda>b. offset_length (x - fst (getButtonCenter s b)) (y - snd (getButtonCenter s b))
                 \<le> buttonRadius) buttons)"
    unfolding hitTestButtons_def by (rule hitTestButtonsFrom_find)
  have 4: "touchStartStep js s t =
        (case hitTestButtons s (pageX t) (pageY t) of
           None \<Rightarrow> (s, [])
         | Some btn \<Rightarrow>
             (s\<lparr>buttonTouches := (buttonTouches s)(touch_identifier t \<mapsto> btn),
                pressedButtons := insert btn (pressedButtons s)\<rparr>,
              [ButtonPress btn]))"
    if "\<not> (joystickTouchId s = None \<and> hitTestJoystick js s (pageX t) (pageY t))"
    using that by (auto simp: touchStartStep_def Let_def)
  have 5: "unbound (run js s (TouchStart (pre @ t # post) # bs)) (touch_identifier t) \<and>
      (\<forall>u. touch_identifier u = touch_identifier t \<longrightarrow>
         dispatch js (run js s (TouchStart (pre @ t # post) # bs)) (TouchMove [u]) =
           (run js s (TouchStart (pre @ t # post) # bs), []) \<and>
         dispatch js (run js s (TouchStart (pre @ t # post) # bs)) (TouchEnd [u]) =
           (run js s (TouchStart (pre @ t # post) # bs), []) \<and>
         dispatch js (run js s (TouchStart (pre @ t # post) # bs)) (TouchCancel [u]) =
           (run js s (TouchStart (pre @ t # post) # bs), []))"
    if h: "distinct (map touch_identifier (pre @ t # post)) \<and>
      unbound s (touch_identifier t) \<and>
      \<not> (joystickTouchId (fst (handleTouchStart js s pre)) = None \<and>
         hitTestJoystick js (fst (handleTouchStart js s pre)) (pageX t) (pageY t)) \<and>
      hitTestButtons (fst (handleTouchStart js s pre)) (pageX t) (pageY t) = None \<and>
      (\<forall>b \<in> set bs. \<not> begins b (touch_identifier t))"
  proof -
    from h have u: "unbound (run js s (TouchStart (pre @ t # post) # bs)) (touch_identifier t)"
      by (intro inert_after_miss) blast+
    then show ?thesis
      using unbound_noop [of "run js s (TouchStart (pre @ t # post) # bs)" _ js]
      by (metis (no_types))
  qed
  have 6: "dispatch js s (TouchStart (pre @ t # post)) =
        (fst (handleTouchStart js
           ((fst (handleTouchStart js s pre))
              \<lparr>buttonTouches :=
                 (buttonTouches (fst (handleTouchStart js s pre)))(touch_identifier t \<mapsto> btn),
               pressedButtons := insert btn (pressedButtons (fst (handleTouchStart js s pre)))\<rparr>)
           post),
         snd (handleTouchStart js s pre) @ [ButtonPress btn] @
         snd (handleTouchStart js
           ((fst (handleTouchStart js s pre))
              \<lparr>buttonTouches :=
                 (buttonTouches (fst (handleTouchStart js s pre)))(touch_identifier t \<mapsto> btn),
               pressedButtons := insert btn (pressedButtons (fst (handleTouchStart js s pre)))\<rparr>)
           post)) \<and>
      btn \<in> pressedButtons (fst (dispatch js s (TouchStart (pre @ t # post)))) \<and>
      (distinct (map touch_identifier (pre @ t # post)) \<longrightarrow>
         bound_to (fst (dispatch js s (TouchStart (pre @ t # post))))
           (touch_identifier t) (Button btn))"
    if h: "\<not> (joystickTouchId (fst (handleTouchStart js s pre)) = None \<and>
         hitTestJoystick js (fst (handleTouchStart js s pre)) (pageX t) (pageY t)) \<and>
      hitTestButtons (fst (handleTouchStart js s pre)) (pageX t) (pageY t) = Some btn"
  proof -
    from h have a: "\<not> (joystickTouchId (fst (handleTouchStart js s pre)) = None \<and>
         hitTestJoystick js (fst (handleTouchStart js s pre)) (pageX t) (pageY t))"
      and b: "hitTestButtons (fst (handleTouchStart js s pre)) (pageX t) (pageY t) = Some btn"
      by blast+
    from button_bound_in_batch [OF a b, of post] show ?thesis
      by (intro conjI)
  qed
  from 1 2 3 4 5 6 show ?thesis
    by blast
qed

theorem hit_test_definition_witness:
  "hitTestJoystick 140 exampleScreen 170 290 \<and>
   \<not> hitTestJoystick 140 exampleScreen 171 290 \<and>
   hitTestButtons exampleScreen 780 290 = Some Attack \<and>
   unbound (run 140 exampleScreen [TouchStart [touchAt 5 400 200], TouchMove [touchAt 5 100 290]]) 5 \<and>
   dispatch 140 (run 140 exampleScreen [TouchStart [touchAt 5 400 200], TouchMove [touchAt 5 100 290]])
     (TouchEnd [touchAt 5 100 290]) =
     (run 140 exampleScreen [TouchStart [touchAt 5 400 200], TouchMove [touchAt 5 100 290]], []) \<and>
   dispatch 140 exampleScreen
     (TouchStart [touchAt 1 100 290, touchAt 2 780 290, touchAt 3 400 200]) =
     (exampleScreen\<lparr>joystickTouchId := Some 1, joyActive := True, joyPos := (0, 0),
        buttonTouches := [2 \<mapsto> Attack], pressedButtons := {Attack}\<rparr>,
      [JoystickMove \<lparr>jd_x = 0, jd_y = 0, jd_angle = 0, jd_distance = 0\<rparr>, ButtonPress Attack]) \<and>
   bound_to (fst (dispatch 140 exampleScreen
     (TouchStart [touchAt 1 100 290, touchAt 2 780 290, touchAt 3 400 200]))) 2 (Button Attack) \<and>
   Attack \<in> pressedButtons (fst (dispatch 140 exampleScreen
     (TouchStart [touchAt 1 100 290, touchAt 2 780 290, touchAt 3 400 200]))) \<and>
   bound_to (fst (dispatch 140 exampleScreen (TouchStart [touchAt 4 670 230]))) 4 (Button Jump)"
proof -
  let ?t = "touchAt 5 400 200"
  let ?bs = "[TouchMove [touchAt 5 100 290]]"
  have c: "joystickCenter 140 exampleScreen = (100, 290)"
    by (simp add: joystickCenter_def joystickLeft_def joystickBottom_def example_defs)
  from hit_test_definition [of 140 exampleScreen 170 290]
  have "hitTestJoystick 140 exampleScreen 170 290 \<longleftrightarrow>
      offset_length (170 - fst (joystickCenter 140 exampleScreen))
        (290 - snd (joystickCenter 140 exampleScreen)) \<le> 140 / 2"
    by blast
  then have 1: "hitTestJoystick 140 exampleScreen 170 290"
    by (simp add: c)
  from hit_test_definition [of 140 exampleScreen 171 290]
  have "hitTestJoystick 140 exampleScreen 171 290 \<longleftrightarrow>
      offset_length (171 - fst (joystickCenter 140 exampleScreen))
        (290 - snd (joystickCenter 140 exampleScreen)) \<le> 140 / 2"
    by blast
  then have 2: "\<not> hitTestJoystick 140 exampleScreen 171 290"
    by (simp add: c)
  from hit_test_definition [of 140 exampleScreen 780 290]
  have "hitTestButtons exampleScreen 780 290 =
     map_option b_type
       (find (\<lambda>b. offset_length (780 - fst (getButtonCenter exampleScreen b))
                 (290 - snd (getButtonCenter exampleScreen b)) \<le> buttonRadius) buttons)"
    by blast
  then have 3: "hitTestButtons exampleScreen 780 290 = Some Attack"
    by (simp add: buttons_def getButtonCenter_def buttonRadius_def example_defs)
  have h: "distinct (map touch_identifier ([] @ ?t # [])) \<and>
    unbound exampleScreen (touch_identifier ?t) \<and>
    \<not> (joystickTouchId (fst (handleTouchStart 140 exampleScreen [])) = None \<and>
       hitTestJoystick 140 (fst (handleTouchStart 140 exampleScreen [])) (pageX ?t) (pageY ?t)) \<and>
    hitTestButtons (fst (handleTouchStart 140 exampleScreen [])) (pageX ?t) (pageY ?t) = None \<and>
    (\<forall>b \<in> set ?bs. \<not> begins b (touch_identifier ?t))"
    by (simp add: handleTouchStart_def unbound_def hit_test_eval example_defs
        del: hitTestButtonsFrom.simps(2))
  from hit_test_definition [of 140 exampleScreen 0 0 ?t "[]" "[]" ?bs] h
  have "unbound (run 140 exampleScreen (TouchStart ([] @ ?t # []) # ?bs)) (touch_identifier ?t) \<and>
      (\<forall>u. touch_identifier u = touch_identifier ?t \<longrightarrow>
         dispatch 140 (run 140 exampleScreen (TouchStart ([] @ ?t # []) # ?bs)) (TouchMove [u]) =
           (run 140 exampleScreen (TouchStart ([] @ ?t # []) # ?bs), []) \<and>
         dispatch 140 (run 140 exampleScreen (TouchStart ([] @ ?t # []) # ?bs)) (TouchEnd [u]) =
           (run 140 exampleScreen (TouchStart ([] @ ?t # []) # ?bs), []) \<and>
         dispatch 140 (run 140 exampleScreen (TouchStart ([] @ ?t # []) # ?bs)) (TouchCancel [u]) =
           (run 140 exampleScreen (TouchStart ([] @ ?t # []) # ?bs), []))"
    by blast
  then have 4: "unbound (run 140 exampleScreen (TouchStart ([] @ ?t # []) # ?bs)) (touch_identifier ?t)"
    and 5: "touch_identifier (touchAt 5 100 290) = touch_identifier ?t \<longrightarrow>
         dispatch 140 (run 140 exampleScreen (TouchStart ([] @ ?t # []) # ?bs))
           (TouchEnd [touchAt 5 100 290]) =
           (run 140 exampleScreen (TouchStart ([] @ ?t # []) # ?bs), [])"
    by blast+
  have i: "touch_identifier (touchAt 5 100 290) = 5" "touch_identifier ?t = 5" "[] @ ?t # [] = [?t]"
    by (simp_all add: touchAt_def)
  let ?pre = "[touchAt 1 100 290]"
  let ?u = "touchAt 2 780 290"
  let ?post = "[touchAt 3 400 200]"
  let ?s1 = "exampleScreen\<lparr>joystickTouchId := Some 1, joyActive := True, joyPos := (0, 0)\<rparr>"
  let ?s2 = "exampleScreen\<lparr>joystickTouchId := Some 1, joyActive := True, joyPos := (0, 0),
        buttonTouches := [2 \<mapsto> Attack], pressedButtons := {Attack}\<rparr>"
  have p1: "fst (handleTouchStart 140 exampleScreen ?pre) = ?s1"
    by (rule example_joystick_start)
  have p2: "snd (handleTouchStart 140 exampleScreen ?pre) =
      [JoystickMove \<lparr>jd_x = 0, jd_y = 0, jd_angle = 0, jd_distance = 0\<rparr>]"
    by (rule example_joystick_start_events)
  have g: "\<not> (joystickTouchId (fst (handleTouchStart 140 exampleScreen ?pre)) = None \<and>
       hitTestJoystick 140 (fst (handleTouchStart 140 exampleScreen ?pre)) (pageX ?u) (pageY ?u)) \<and>
    hitTestButtons (fst (handleTouchStart 140 exampleScreen ?pre)) (pageX ?u) (pageY ?u) = Some Attack"
    unfolding p1
    by (simp add: hit_test_eval example_defs del: hitTestButtonsFrom.simps(2))
  have d: "distinct (map touch_identifier (?pre @ ?u # ?post))"
    by (simp add: touchAt_def)
  have upd: "?s1\<lparr>buttonTouches := (buttonTouches ?s1)(touch_identifier ?u \<mapsto> Attack),
      pressedButtons := insert Attack (pressedButtons ?s1)\<rparr> = ?s2"
    by (simp add: example_defs)
  have q: "handleTouchStart 140 ?s2 ?post = (?s2, [])"
    by (simp add: handleTouchStart_def touchStartStep_def hit_test_eval Let_def example_defs
        del: hitTestButtonsFrom.simps(2))
  from hit_test_definition [of 140 exampleScreen 0 0 ?u ?pre ?post "[]" Attack] g d
  have "dispatch 140 exampleScreen (TouchStart (?pre @ ?u # ?post)) =
        (fst (handleTouchStart 140
           ((fst (handleTouchStart 140 exampleScreen ?pre))
              \<lparr>buttonTouches :=
                 (buttonTouches (fst (handleTouchStart 140 exampleScreen ?pre)))
                   (touch_identifier ?u \<mapsto> Attack),
               pressedButtons :=
                 insert Attack (pressedButtons (fst (handleTouchStart 140 exampleScreen ?pre)))\<rparr>)
           ?post),
         snd (handleTouchStart 140 exampleScreen ?pre) @ [ButtonPress Attack] @
         snd (handleTouchStart 140
           ((fst (handleTouchStart 140 exampleScreen ?pre))
              \<lparr>buttonTouches :=
                 (buttonTouches (fst (handleTouchStart 140 exampleScreen ?pre)))
                   (touch_identifier ?u \<mapsto> Attack),
               pressedButtons :=
                 insert Attack (pressedButtons (fst (handleTouchStart 140 exampleScreen ?pre)))\<rparr>)
           ?post))"
    and 7: "Attack \<in> pressedButtons (fst (dispatch 140 exampleScreen (TouchStart (?pre @ ?u # ?post))))"
    and 8: "bound_to (fst (dispatch 140 exampleScreen (TouchStart (?pre @ ?u # ?post))))
        (touch_identifier ?u) (Button Attack)"
    by blast+
  then have 6: "dispatch 140 exampleScreen (TouchStart (?pre @ ?u # ?post)) =
      (?s2, [JoystickMove \<lparr>jd_x = 0, jd_y = 0, jd_angle = 0, jd_distance = 0\<rparr>, ButtonPress Attack])"
    by (simp only: p1 p2 upd q fst_conv snd_conv append.simps)
  let ?v = "touchAt 4 670 230"
  have gj: "\<not> (joystickTouchId (fst (handleTouchStart 140 exampleScreen [])) = None \<and>
       hitTestJoystick 140 (fst (handleTouchStart 140 exampleScreen [])) (pageX ?v) (pageY ?v)) \<and>
    hitTestButtons (fst (handleTouchStart 140 exampleScreen [])) (pageX ?v) (pageY ?v) = Some Jump"
    by (simp add: handleTouchStart_def hit_test_eval example_defs del: hitTestButtonsFrom.simps(2))
  have dj: "distinct (map touch_identifier ([] @ ?v # []))" by simp
  from hit_test_definition [of 140 exampleScreen 0 0 ?v "[]" "[]" "[]" Jump] gj dj
  have 9: "bound_to (fst (dispatch 140 exampleScreen (TouchStart ([] @ ?v # []))))
        (touch_identifier ?v) (Button Jump)"
    by blast
  have k: "touch_identifier ?u = 2" "touch_identifier ?v = 4" "[] @ ?v # [] = [?v]"
    "?pre @ ?u # ?post = [touchAt 1 100 290, touchAt 2 780 290, touchAt 3 400 200]"
    by (simp_all add: touchAt_def)
  from 1 2 3 4 5 6 7 8 9 show ?thesis
    unfolding i k by blast
qed

end
